theory Spec2Isabelle
  imports Main "HOL-Library.AList"
begin

section \<open>Byte strings: the functions of Go's \<open>strings\<close> package that the proxy calls\<close>

text \<open>
  A Go string is a sequence of bytes; it is modelled as a \<^typ>\<open>string\<close> (a list of
  8-bit characters), and \<open>len\<close> is \<^const>\<open>length\<close>.
\<close>

definition HasPrefix :: "string \<Rightarrow> string \<Rightarrow> bool" where
  "HasPrefix s p = (take (length p) s = p)"

definition HasSuffix :: "string \<Rightarrow> string \<Rightarrow> bool" where
  "HasSuffix s suf = (length suf \<le> length s \<and> drop (length s - length suf) s = suf)"

definition TrimSuffix :: "string \<Rightarrow> string \<Rightarrow> string" where
  "TrimSuffix s suf = (if HasSuffix s suf then take (length s - length suf) s else s)"

fun Contains :: "string \<Rightarrow> string \<Rightarrow> bool" where
  "Contains [] sub = (sub = [])"
| "Contains (c # cs) sub = (HasPrefix (c # cs) sub \<or> Contains cs sub)"

text \<open>\<open>strings.Index\<close>: the position of the first occurrence, or \<open>-1\<close>.\<close>

fun Index :: "string \<Rightarrow> string \<Rightarrow> int" where
  "Index [] sub = (if sub = [] then 0 else -1)"
| "Index (c # cs) sub =
     (if HasPrefix (c # cs) sub then 0
      else (let i = Index cs sub in if i < 0 then -1 else i + 1))"

text \<open>
  \<open>strings.TrimSpace\<close> removes the leading and the trailing white space, as Unicode
  defines it (\<open>unicode.IsSpace\<close>). On the bytes of the string these are the UTF-8
  encodings of U+0009 to U+000D, U+0020, U+0085, U+00A0, U+1680, U+2000 to U+200A,
  U+2028, U+2029, U+202F, U+205F and U+3000.
\<close>

definition spaceEncodings :: "string list" where
  "spaceEncodings =
    [[CHR 0x09], [CHR 0x0A], [CHR 0x0B], [CHR 0x0C], [CHR 0x0D], [CHR 0x20],
     [CHR 0xC2, CHR 0x85], [CHR 0xC2, CHR 0xA0],
     [CHR 0xE1, CHR 0x9A, CHR 0x80],
     [CHR 0xE2, CHR 0x80, CHR 0x80], [CHR 0xE2, CHR 0x80, CHR 0x81],
     [CHR 0xE2, CHR 0x80, CHR 0x82], [CHR 0xE2, CHR 0x80, CHR 0x83],
     [CHR 0xE2, CHR 0x80, CHR 0x84], [CHR 0xE2, CHR 0x80, CHR 0x85],
     [CHR 0xE2, CHR 0x80, CHR 0x86], [CHR 0xE2, CHR 0x80, CHR 0x87],
     [CHR 0xE2, CHR 0x80, CHR 0x88], [CHR 0xE2, CHR 0x80, CHR 0x89],
     [CHR 0xE2, CHR 0x80, CHR 0x8A],
     [CHR 0xE2, CHR 0x80, CHR 0xA8], [CHR 0xE2, CHR 0x80, CHR 0xA9],
     [CHR 0xE2, CHR 0x80, CHR 0xAF], [CHR 0xE2, CHR 0x81, CHR 0x9F],
     [CHR 0xE3, CHR 0x80, CHR 0x80]]"

text \<open>The number of bytes of the white-space character at the front of \<open>s\<close>, 0 if none.\<close>

fun spaceWidth :: "string list \<Rightarrow> string \<Rightarrow> nat" where
  "spaceWidth [] s = 0"
| "spaceWidth (e # es) s = (if HasPrefix s e then length e else spaceWidth es s)"

function trimFront :: "string list \<Rightarrow> string \<Rightarrow> string" where
  "trimFront es s =
     (if spaceWidth es s = 0 \<or> s = [] then s else trimFront es (drop (spaceWidth es s) s))"
  by pat_completeness auto
termination
  by (relation "measure (\<lambda>(es, s). length s)") auto

definition TrimLeftSpace :: "string \<Rightarrow> string" where
  "TrimLeftSpace s = trimFront spaceEncodings s"

definition TrimRightSpace :: "string \<Rightarrow> string" where
  "TrimRightSpace s = rev (trimFront (map rev spaceEncodings) (rev s))"

definition TrimSpace :: "string \<Rightarrow> string" where
  "TrimSpace s = TrimRightSpace (TrimLeftSpace s)"


text \<open>Decimal rendering of an integer: the \<open>%d\<close> verb of \<open>fmt\<close> and the way
  \<open>encoding/json\<close> prints a Go \<open>int\<close>.\<close>

definition digitChar :: "nat \<Rightarrow> char" where
  "digitChar n = ''0123456789abcdef'' ! n"

function showNat :: "nat \<Rightarrow> string" where
  "showNat n = (if n < 10 then [digitChar n] else showNat (n div 10) @ [digitChar (n mod 10)])"
  by pat_completeness auto
termination
  by (relation "measure (\<lambda>n. n)") auto

definition showInt :: "int \<Rightarrow> string" where
  "showInt i = (if i < 0 then ''-'' @ showNat (nat (- i)) else showNat (nat i))"

section \<open>JSON trees and Go's \<open>encoding/json\<close>\<close>

text \<open>
  \<open>json.Unmarshal\<close> into a \<open>map[string]interface{}\<close> builds a tree of Go values:
  \<open>nil\<close>, \<open>bool\<close>, \<open>float64\<close>, \<open>string\<close>, \<open>[]interface{}\<close> and
  \<open>map[string]interface{}\<close>. A Go map is an association list read with
  \<^const>\<open>map_of\<close> and written with \<^const>\<open>AList.update\<close>; the order of its entries
  carries no meaning (\<open>json.Marshal\<close> prints the keys sorted). A number keeps the text
  of its literal: the round trip through \<open>float64\<close>, which may reprint a literal
  (\<open>1.0\<close> as \<open>1\<close>) and rejects one out of range, is not modelled, and neither is the
  replacement of invalid UTF-8 by U+FFFD nor the limit on nesting depth. No theorem
  below depends on how a number is printed.
\<close>

datatype json =
    JNull
  | JBool bool
  | JNum string
  | JStr string
  | JArr "json list"
  | JObj "(string \<times> json) list"

text \<open>The type assertions \<open>x.([]interface{})\<close>, \<open>x.(map[string]interface{})\<close>,
  \<open>x.(string)\<close> and \<open>x.(bool)\<close> on the result of a map lookup; \<open>None\<close> is
  \<open>ok == false\<close>.\<close>

fun asList :: "json option \<Rightarrow> json list option" where
  "asList (Some (JArr xs)) = Some xs"
| "asList _ = None"

fun asMap :: "json option \<Rightarrow> (string \<times> json) list option" where
  "asMap (Some (JObj kvs)) = Some kvs"
| "asMap _ = None"

fun asString :: "json option \<Rightarrow> string option" where
  "asString (Some (JStr s)) = Some s"
| "asString _ = None"

fun asBool :: "json option \<Rightarrow> bool option" where
  "asBool (Some (JBool b)) = Some b"
| "asBool _ = None"

subsection \<open>Reading\<close>

datatype token =
    TLBrace | TRBrace | TLBrack | TRBrack | TColon | TComma
  | TString string | TNumber string | TTrue | TFalse | TNull

definition hexVal :: "char \<Rightarrow> nat option" where
  "hexVal c =
     (let n = (of_char c :: nat) in
      if 48 \<le> n \<and> n \<le> 57 then Some (n - 48)
      else if 97 \<le> n \<and> n \<le> 102 then Some (n - 87)
      else if 65 \<le> n \<and> n \<le> 70 then Some (n - 55)
      else None)"

text \<open>\<open>getu4\<close>: the code unit of \<open>\uXXXX\<close> at the front of the string.\<close>

definition getu4 :: "string \<Rightarrow> nat option" where
  "getu4 s =
     (case s of
        b # u # h1 # h2 # h3 # h4 # _ \<Rightarrow>
          if b = CHR 0x5C \<and> u = CHR ''u'' then
            (case (hexVal h1, hexVal h2, hexVal h3, hexVal h4) of
               (Some x, Some y, Some z, Some w) \<Rightarrow> Some (((x * 16 + y) * 16 + z) * 16 + w)
             | _ \<Rightarrow> None)
          else None
      | _ \<Rightarrow> None)"

definition encodeRune :: "nat \<Rightarrow> string" where
  "encodeRune r =
     (if r < 0x80 then [char_of r]
      else if r < 0x800 then [char_of (0xC0 + r div 64), char_of (0x80 + r mod 64)]
      else if 0xD800 \<le> r \<and> r < 0xE000 then [CHR 0xEF, CHR 0xBF, CHR 0xBD]
      else if r < 0x10000 then
        [char_of (0xE0 + r div 4096), char_of (0x80 + (r div 64) mod 64),
         char_of (0x80 + r mod 64)]
      else
        [char_of (0xF0 + r div 262144), char_of (0x80 + (r div 4096) mod 64),
         char_of (0x80 + (r div 64) mod 64), char_of (0x80 + r mod 64)])"

definition simpleEscape :: "char \<Rightarrow> char option" where
  "simpleEscape e =
     (if e = CHR 0x22 \<or> e = CHR 0x5C \<or> e = CHR ''/'' then Some e
      else if e = CHR ''b'' then Some (CHR 0x08)
      else if e = CHR ''f'' then Some (CHR 0x0C)
      else if e = CHR ''n'' then Some (CHR 0x0A)
      else if e = CHR ''r'' then Some (CHR 0x0D)
      else if e = CHR ''t'' then Some (CHR 0x09)
      else None)"

definition prepend :: "string \<Rightarrow> (string \<times> string) option \<Rightarrow> (string \<times> string) option" where
  "prepend p r = (case r of None \<Rightarrow> None | Some (s, rest) \<Rightarrow> Some (p @ s, rest))"

text \<open>A string literal, from the byte after its opening quote: the decoded bytes and
  the input after the closing quote.\<close>

fun lexString :: "string \<Rightarrow> (string \<times> string) option" where
  "lexString [] = None"
| "lexString (c # cs) =
     (if c = CHR 0x22 then Some ([], cs)
      else if c = CHR 0x5C then
        (case cs of
           [] \<Rightarrow> None
         | e # cs' \<Rightarrow>
             if e = CHR ''u'' then
               (case getu4 (c # cs) of
                  None \<Rightarrow> None
                | Some r \<Rightarrow>
                    if 0xD800 \<le> r \<and> r < 0xE000 then
                      (case getu4 (drop 4 cs') of
                         None \<Rightarrow> prepend (encodeRune 0xFFFD) (lexString (drop 4 cs'))
                       | Some r2 \<Rightarrow>
                           if r < 0xDC00 \<and> 0xDC00 \<le> r2 \<and> r2 < 0xE000 then
                             prepend (encodeRune ((r - 0xD800) * 1024 + (r2 - 0xDC00) + 0x10000))
                               (lexString (drop 10 cs'))
                           else prepend (encodeRune 0xFFFD) (lexString (drop 4 cs')))
                    else prepend (encodeRune r) (lexString (drop 4 cs')))
             else
               (case simpleEscape e of
                  None \<Rightarrow> None
                | Some ch \<Rightarrow> prepend [ch] (lexString cs')))
      else if (of_char c :: nat) < 0x20 then None
      else prepend [c] (lexString cs))"

definition isDigit :: "char \<Rightarrow> bool" where
  "isDigit c = (48 \<le> (of_char c :: nat) \<and> (of_char c :: nat) \<le> 57)"

definition isNumChar :: "char \<Rightarrow> bool" where
  "isNumChar c = (isDigit c \<or> c = CHR ''-'' \<or> c = CHR ''+'' \<or> c = CHR ''.''
                  \<or> c = CHR ''e'' \<or> c = CHR ''E'')"

definition validExp :: "string \<Rightarrow> bool" where
  "validExp s =
     (case s of
        [] \<Rightarrow> True
      | e # r \<Rightarrow>
          (e = CHR ''e'' \<or> e = CHR ''E'') \<and>
          (let ds = (case r of
                       [] \<Rightarrow> []
                     | sg # t \<Rightarrow> if sg = CHR ''+'' \<or> sg = CHR ''-'' then t else r)
           in ds \<noteq> [] \<and> list_all isDigit ds))"

definition validFrac :: "string \<Rightarrow> bool" where
  "validFrac s =
     (case s of
        [] \<Rightarrow> True
      | c # r \<Rightarrow>
          if c = CHR ''.'' then takeWhile isDigit r \<noteq> [] \<and> validExp (dropWhile isDigit r)
          else validExp s)"

definition validInt :: "string \<Rightarrow> bool" where
  "validInt s =
     (case s of
        [] \<Rightarrow> False
      | c # r \<Rightarrow>
          if c = CHR ''0'' then validFrac r
          else if isDigit c then validFrac (dropWhile isDigit r)
          else False)"

definition validNumber :: "string \<Rightarrow> bool" where
  "validNumber s =
     (case s of
        [] \<Rightarrow> False
      | c # r \<Rightarrow> if c = CHR ''-'' then validInt r else validInt s)"

definition isJSONSpace :: "char \<Rightarrow> bool" where
  "isJSONSpace c = (c = CHR 0x20 \<or> c = CHR 0x09 \<or> c = CHR 0x0D \<or> c = CHR 0x0A)"

definition consTok :: "token \<Rightarrow> token list option \<Rightarrow> token list option" where
  "consTok t r = (case r of None \<Rightarrow> None | Some ts \<Rightarrow> Some (t # ts))"

lemma prepend_length:
  "prepend p r = Some (s, rest) \<Longrightarrow> \<exists>s'. r = Some (s', rest)"
  by (auto simp: prepend_def split: option.splits)

lemma lexString_length: "lexString cs = Some (s, rest) \<Longrightarrow> length rest \<le> length cs"
proof (induction cs arbitrary: s rule: lexString.induct)
  case 1
  then show ?case by simp
next
  case (2 c cs)
  show ?case
    using "2.prems" "2.IH"
    by (auto split: if_splits list.splits option.splits dest!: prepend_length)
       (fastforce+)
qed

function lexer :: "string \<Rightarrow> token list option" where
  "lexer [] = Some []"
| "lexer (c # cs) =
     (if isJSONSpace c then lexer cs
      else if c = CHR ''{'' then consTok TLBrace (lexer cs)
      else if c = CHR ''}'' then consTok TRBrace (lexer cs)
      else if c = CHR ''['' then consTok TLBrack (lexer cs)
      else if c = CHR '']'' then consTok TRBrack (lexer cs)
      else if c = CHR '':'' then consTok TColon (lexer cs)
      else if c = CHR '','' then consTok TComma (lexer cs)
      else if c = CHR 0x22 then
        (case lexString cs of
           None \<Rightarrow> None
         | Some (s, rest) \<Rightarrow> consTok (TString s) (lexer rest))
      else if c = CHR ''t'' then
        (if HasPrefix cs ''rue'' then consTok TTrue (lexer (drop 3 cs)) else None)
      else if c = CHR ''f'' then
        (if HasPrefix cs ''alse'' then consTok TFalse (lexer (drop 4 cs)) else None)
      else if c = CHR ''n'' then
        (if HasPrefix cs ''ull'' then consTok TNull (lexer (drop 3 cs)) else None)
      else if isNumChar c then
        (if validNumber (c # takeWhile isNumChar cs)
         then consTok (TNumber (c # takeWhile isNumChar cs)) (lexer (dropWhile isNumChar cs))
         else None)
      else None)"
  by pat_completeness auto
termination
  by (relation "measure length")
     (auto dest: lexString_length simp: less_Suc_eq_le length_dropWhile_le)


text \<open>
  The parser runs over the tokens with a stack of the containers that are open:
  an array with the elements read so far, an object with its entries, and the key
  whose value is being read. A repeated key overwrites the earlier entry, as the
  assignment to a Go map does.
\<close>

datatype frame = FArr "json list" | FObj "(string \<times> json) list" | FKey string

datatype pstate =
    PValue          \<comment> \<open>a value must follow\<close>
  | PArrFirst       \<comment> \<open>after \<open>[\<close>: a value or \<open>]\<close>\<close>
  | PObjFirst       \<comment> \<open>after \<open>{\<close>: a key or \<open>}\<close>\<close>
  | PKey            \<comment> \<open>after a comma in an object: a key\<close>
  | PColon          \<comment> \<open>after a key: the colon\<close>
  | PAfter json     \<comment> \<open>a value is complete\<close>

fun startValue :: "frame list \<Rightarrow> token \<Rightarrow> (frame list \<times> pstate) option" where
  "startValue st (TString s) = Some (st, PAfter (JStr s))"
| "startValue st (TNumber n) = Some (st, PAfter (JNum n))"
| "startValue st TTrue = Some (st, PAfter (JBool True))"
| "startValue st TFalse = Some (st, PAfter (JBool False))"
| "startValue st TNull = Some (st, PAfter JNull)"
| "startValue st TLBrack = Some (FArr [] # st, PArrFirst)"
| "startValue st TLBrace = Some (FObj [] # st, PObjFirst)"
| "startValue st _ = None"

fun pstep :: "frame list \<Rightarrow> pstate \<Rightarrow> token \<Rightarrow> (frame list \<times> pstate) option" where
  "pstep st PValue t = startValue st t"
| "pstep (FArr [] # st) PArrFirst TRBrack = Some (st, PAfter (JArr []))"
| "pstep st PArrFirst t = startValue st t"
| "pstep (FObj [] # st) PObjFirst TRBrace = Some (st, PAfter (JObj []))"
| "pstep st PObjFirst (TString k) = Some (FKey k # st, PColon)"
| "pstep st PKey (TString k) = Some (FKey k # st, PColon)"
| "pstep st PColon TColon = Some (st, PValue)"
| "pstep (FArr xs # st) (PAfter v) TComma = Some (FArr (xs @ [v]) # st, PValue)"
| "pstep (FArr xs # st) (PAfter v) TRBrack = Some (st, PAfter (JArr (xs @ [v])))"
| "pstep (FKey k # FObj kvs # st) (PAfter v) TComma =
     Some (FObj (AList.update k v kvs) # st, PKey)"
| "pstep (FKey k # FObj kvs # st) (PAfter v) TRBrace =
     Some (st, PAfter (JObj (AList.update k v kvs)))"
| "pstep st ps t = None"

fun parseTokens :: "frame list \<Rightarrow> pstate \<Rightarrow> token list \<Rightarrow> json option" where
  "parseTokens st ps [] = (case (st, ps) of ([], PAfter v) \<Rightarrow> Some v | _ \<Rightarrow> None)"
| "parseTokens st ps (t # ts) =
     (case pstep st ps t of
        None \<Rightarrow> None
      | Some (st', ps') \<Rightarrow> parseTokens st' ps' ts)"

definition parseJSON :: "string \<Rightarrow> json option" where
  "parseJSON s = (case lexer s of None \<Rightarrow> None | Some ts \<Rightarrow> parseTokens [] PValue ts)"

text \<open>
  \<open>var data map[string]interface{}; err := json.Unmarshal(bytes, &data)\<close>. The result
  \<open>None\<close> is \<open>err != nil\<close>. The input \<open>null\<close> leaves \<open>data\<close> the nil map, which
  reads as the empty map; any other value that is not an object is an error.
\<close>

definition Unmarshal :: "string \<Rightarrow> (string \<times> json) list option" where
  "Unmarshal bytes =
     (case parseJSON bytes of
        Some (JObj kvs) \<Rightarrow> Some kvs
      | Some JNull \<Rightarrow> Some []
      | _ \<Rightarrow> None)"

subsection \<open>Writing\<close>

text \<open>
  \<open>json.Marshal\<close> (Go 1.21, the version the repository builds with): the keys of a
  map sorted bytewise, no white space, and in strings the escapes \<open>\"\<close>, \<open>\\\<close>,
  \<open>\n\<close>, \<open>\r\<close>, \<open>\t\<close>, and \<open>\u00XX\<close> for the other control characters and for
  \<open><\<close>, \<open>>\<close> and \<open>&\<close>; U+2028 and U+2029 are written as the escapes of their code units.
\<close>

definition escapeByte :: "char \<Rightarrow> string" where
  "escapeByte c =
     (if c = CHR 0x22 \<or> c = CHR 0x5C then [CHR 0x5C, c]
      else if c = CHR 0x0A then [CHR 0x5C, CHR ''n'']
      else if c = CHR 0x0D then [CHR 0x5C, CHR ''r'']
      else if c = CHR 0x09 then [CHR 0x5C, CHR ''t'']
      else if (of_char c :: nat) < 0x20 \<or> c = CHR ''<'' \<or> c = CHR ''>'' \<or> c = CHR ''&'' then
        [CHR 0x5C, CHR ''u'', CHR ''0'', CHR ''0'',
         digitChar ((of_char c :: nat) div 16), digitChar ((of_char c :: nat) mod 16)]
      else [c])"

fun escapeString :: "string \<Rightarrow> string" where
  "escapeString [] = []"
| "escapeString (c # cs) =
     (if HasPrefix (c # cs) [CHR 0xE2, CHR 0x80, CHR 0xA8]
        then CHR 0x5C # ''u2028'' @ escapeString (drop 2 cs)
      else if HasPrefix (c # cs) [CHR 0xE2, CHR 0x80, CHR 0xA9]
        then CHR 0x5C # ''u2029'' @ escapeString (drop 2 cs)
      else escapeByte c @ escapeString cs)"

definition quoteString :: "string \<Rightarrow> string" where
  "quoteString s = CHR 0x22 # escapeString s @ [CHR 0x22]"

fun joinComma :: "string list \<Rightarrow> string" where
  "joinComma [] = []"
| "joinComma [x] = x"
| "joinComma (x # y # ys) = x @ '','' @ joinComma (y # ys)"

fun bytesLess :: "string \<Rightarrow> string \<Rightarrow> bool" where
  "bytesLess [] [] = False"
| "bytesLess [] (b # bs) = True"
| "bytesLess (a # as) [] = False"
| "bytesLess (a # as) (b # bs) =
     (if a = b then bytesLess as bs else (of_char a :: nat) < of_char b)"

fun insertKey :: "string \<times> 'a \<Rightarrow> (string \<times> 'a) list \<Rightarrow> (string \<times> 'a) list" where
  "insertKey e [] = [e]"
| "insertKey e (x # xs) = (if bytesLess (fst e) (fst x) then e # x # xs else x # insertKey e xs)"

definition sortKeys :: "(string \<times> 'a) list \<Rightarrow> (string \<times> 'a) list" where
  "sortKeys kvs = foldr insertKey kvs []"

definition member :: "string \<times> string \<Rightarrow> string" where
  "member kv = quoteString (fst kv) @ '':'' @ snd kv"

primrec Marshal :: "json \<Rightarrow> string" where
  "Marshal JNull = ''null''"
| "Marshal (JBool b) = (if b then ''true'' else ''false'')"
| "Marshal (JNum n) = n"
| "Marshal (JStr s) = quoteString s"
| "Marshal (JArr xs) = ''['' @ joinComma (map Marshal xs) @ '']''"
| "Marshal (JObj kvs) =
     ''{'' @ joinComma (map member (sortKeys (map (map_prod id Marshal) kvs))) @ ''}''"


section \<open>The SSE tokenizer, the line classifier and the sentinel editor (\<open>streaming/sse.go\<close>)\<close>

text \<open>
  \<open>bufio.Scanner\<close> with its default split function, run to its end on a reader: the
  lines of the input without their terminator (\<open>\n\<close>, or \<open>\r\n\<close>), and the bytes
  that the scanner has left in the reader. The scanner takes bytes into its buffer until
  the buffer holds a line feed; with 65536 bytes of one line in the buffer and no line
  feed among them it stops with \<open>ErrTooLong\<close>, and the bytes after these stay in the
  reader for whoever reads next. At the end of the input nothing stays.
\<close>

definition dropCR :: "string \<Rightarrow> string" where
  "dropCR l = (if l \<noteq> [] \<and> last l = CHR 0x0D then butlast l else l)"

fun scanFrom :: "string \<Rightarrow> string \<Rightarrow> string list \<times> string" where
  "scanFrom cur [] = (if cur = [] \<or> 65536 \<le> length cur then ([], []) else ([dropCR cur], []))"
| "scanFrom cur (c # cs) =
     (if 65536 \<le> length cur then ([], c # cs)
      else if c = CHR 0x0A then
        (case scanFrom [] cs of (lines, unread) \<Rightarrow> (dropCR cur # lines, unread))
      else scanFrom (cur @ [c]) cs)"

definition scanLines :: "string \<Rightarrow> string list \<times> string" where
  "scanLines reader = scanFrom [] reader"

text \<open>\<open>SSELineIterator\<close> sends to the channel the lines that the scanner yields and that
  are not blank, until the scanner stops; then it closes the channel.\<close>

definition SSELineIterator :: "string \<Rightarrow> string list" where
  "SSELineIterator reader = filter (\<lambda>line. TrimSpace line \<noteq> []) (fst (scanLines reader))"

definition IsDataLine :: "string \<Rightarrow> bool" where
  "IsDataLine line = HasPrefix line ''data: ''"

definition IsBlockedLine :: "string \<Rightarrow> bool" where
  "IsBlockedLine line = Contains line ''blockReason''"

definition ExtractFinishReason :: "string \<Rightarrow> string" where
  "ExtractFinishReason line =
     (if \<not> Contains line ''finishReason'' then []
      else
        let idx = Index line ''{'' in
        if idx = -1 then []
        else
          case Unmarshal (drop (nat idx) line) of
            None \<Rightarrow> []
          | Some data \<Rightarrow>
              (case asList (map_of data ''candidates'') of
                 Some (c0 # _) \<Rightarrow>
                   (case asMap (Some c0) of
                      Some candidate \<Rightarrow>
                        (case asString (map_of candidate ''finishReason'') of
                           Some finishReason \<Rightarrow> finishReason
                         | None \<Rightarrow> [])
                    | None \<Rightarrow> [])
               | _ \<Rightarrow> []))"

record LineContent =
  Text :: string
  IsThought :: bool

definition noContent :: LineContent where
  "noContent = \<lparr>Text = [], IsThought = False\<rparr>"

definition ParseLineContent :: "string \<Rightarrow> LineContent" where
  "ParseLineContent line =
     (if \<not> IsDataLine line then noContent
      else
        let idx = Index line ''{'' in
        if idx = -1 then noContent
        else
          case Unmarshal (drop (nat idx) line) of
            None \<Rightarrow> noContent
          | Some data \<Rightarrow>
          (case asList (map_of data ''candidates'') of
            Some (c0 # _) \<Rightarrow>
          (case asMap (Some c0) of
            None \<Rightarrow> noContent
          | Some candidate \<Rightarrow>
          (case asMap (map_of candidate ''content'') of
            None \<Rightarrow> noContent
          | Some content \<Rightarrow>
          (case asList (map_of content ''parts'') of
            Some (p0 # _) \<Rightarrow>
          (case asMap (Some p0) of
            None \<Rightarrow> noContent
          | Some part \<Rightarrow>
              \<lparr>Text = (case asString (map_of part ''text'') of Some text \<Rightarrow> text | None \<Rightarrow> []),
               IsThought = (case asBool (map_of part ''thought'') of Some thought \<Rightarrow> thought
                            | None \<Rightarrow> False)\<rparr>)
          | _ \<Rightarrow> noContent)))
          | _ \<Rightarrow> noContent))"

definition doneToken :: string where
  "doneToken = ''[done]''"

text \<open>The loop \<open>for i := len(doneToken); i > 0; i--\<close>: the first of the suffixes of the
  token, longest first, that ends the text is removed.\<close>

fun removeDoneSuffix :: "nat \<Rightarrow> string \<Rightarrow> string" where
  "removeDoneSuffix 0 originalText = originalText"
| "removeDoneSuffix (Suc i) originalText =
     (let suffix = drop (length doneToken - Suc i) doneToken in
      if HasSuffix originalText suffix then TrimSuffix originalText suffix
      else removeDoneSuffix i originalText)"

text \<open>
  \<open>part["text"] = modifiedText\<close> writes into the map that the tree \<open>data\<close> holds at
  \<open>candidates[0].content.parts[0]\<close>; a tree that \<open>json.Unmarshal\<close> has just built
  shares no map, so the assignment is the replacement of that one entry.
  \<open>json.Marshal\<close> has no error on such a tree.
\<close>

definition RemoveDoneTokenFromLine :: "string \<Rightarrow> bool \<Rightarrow> string" where
  "RemoveDoneTokenFromLine line shouldRemove =
     (if \<not> IsDataLine line \<or> \<not> shouldRemove then line
      else
        let idx = Index line ''{'' in
        if idx = -1 then line
        else
          case Unmarshal (drop (nat idx) line) of
            None \<Rightarrow> line
          | Some data \<Rightarrow>
          (case asList (map_of data ''candidates'') of
            Some (c0 # candidates) \<Rightarrow>
          (case asMap (Some c0) of
            None \<Rightarrow> line
          | Some candidate \<Rightarrow>
          (case asMap (map_of candidate ''content'') of
            None \<Rightarrow> line
          | Some content \<Rightarrow>
          (case asList (map_of content ''parts'') of
            Some (p0 # parts) \<Rightarrow>
          (case asMap (Some p0) of
            None \<Rightarrow> line
          | Some part \<Rightarrow>
          (case asString (map_of part ''text'') of
            None \<Rightarrow> line
          | Some text \<Rightarrow>
              if (case asBool (map_of part ''thought'') of Some thought \<Rightarrow> thought | None \<Rightarrow> False)
              then line
              else
                let originalText = TrimSpace text;
                    modifiedText = removeDoneSuffix (length doneToken) originalText
                in
                if originalText \<noteq> modifiedText then
                  let part' = AList.update ''text'' (JStr modifiedText) part;
                      content' = AList.update ''parts'' (JArr (JObj part' # parts)) content;
                      candidate' = AList.update ''content'' (JObj content') candidate;
                      data' = AList.update ''candidates'' (JArr (JObj candidate' # candidates)) data
                  in take (nat idx) line @ Marshal (JObj data')
                else line))
          | _ \<Rightarrow> line)))
          | _ \<Rightarrow> line))"


section \<open>The continuation builder and the retry engine (\<open>streaming/retry.go\<close>)\<close>

record Config =
  MaxConsecutiveRetries :: int
  RetryDelayMs :: int
  SwallowThoughtsAfterRetry :: bool

definition nonRetryableStatuses :: "int \<Rightarrow> bool" where
  "nonRetryableStatuses code =
     (code = 400 \<or> code = 401 \<or> code = 403 \<or> code = 404 \<or> code = 429)"

subsection \<open>\<open>BuildRetryRequestBody\<close>\<close>

definition isUserMessage :: "json \<Rightarrow> bool" where
  "isUserMessage m =
     (case asMap (Some m) of
        Some content \<Rightarrow>
          (case asString (map_of content ''role'') of
             Some role \<Rightarrow> role = ''user''
           | None \<Rightarrow> False)
      | None \<Rightarrow> False)"

text \<open>The loop \<open>for i := len(contents) - 1; i >= 0; i--\<close>, entered with
  \<open>n = len(contents)\<close>; the index read is \<open>n - 1\<close>, below the length.\<close>

fun lastUserIndex :: "json list \<Rightarrow> nat \<Rightarrow> int" where
  "lastUserIndex contents 0 = -1"
| "lastUserIndex contents (Suc i) =
     (if isUserMessage (contents ! i) then int i else lastUserIndex contents i)"

definition continuePrompt :: string where
  "continuePrompt = ''Continue exactly where you left off without any preamble or repetition.''"

definition message :: "string \<Rightarrow> string \<Rightarrow> json" where
  "message role text =
     JObj [(''role'', JStr role), (''parts'', JArr [JObj [(''text'', JStr text)]])]"

definition BuildRetryRequestBody ::
  "(string \<times> json) list \<Rightarrow> string \<Rightarrow> (string \<times> json) list" where
  "BuildRetryRequestBody originalBody accumulatedText =
     (let retryBody = originalBody;
          contents = (case asList (map_of retryBody ''contents'') of
                        Some cs \<Rightarrow> cs
                      | None \<Rightarrow> []);
          lastUser = lastUserIndex contents (length contents);
          history = [message ''model'' accumulatedText, message ''user'' continuePrompt]
      in
      if lastUser \<noteq> -1 then
        AList.update ''contents''
          (JArr (take (nat (lastUser + 1)) contents @ history
                 @ drop (nat (lastUser + 1)) contents))
          retryBody
      else AList.update ''contents'' (JArr (contents @ history)) retryBody)"

subsection \<open>The session and its surroundings\<close>

text \<open>
  What the engine does to the outside is recorded in a trace: the calls of
  \<open>writer.Write\<close> with their bytes (accepted by the client or not), the calls of
  \<open>time.Sleep\<close>, the continuation requests handed to the HTTP client with the bytes of
  their body, and the interruptions the engine reports.
\<close>

datatype event =
    Wrote string
  | WriteError string
  | Slept int
  | Requested string
  | Interrupted string

text \<open>The reply of the outside to a continuation request: \<open>client.Do\<close> returns an
  error, or a response with a status code and a body.\<close>

datatype reply = TransportError | Response int string

text \<open>
  The surroundings of one session: the reply to the \<open>k\<close>-th continuation request,
  whether the \<open>k\<close>-th call of \<open>writer.Write\<close> returns an error (the client has
  gone), and whether \<open>http.NewRequest\<close> accepts \<open>upstreamURL\<close>.

  The last component belongs to the goroutine \<open>SSELineIterator\<close> of an iteration whose
  inner loop is left at a line, by \<open>break\<close> or \<open>return\<close>. Nothing stops that
  goroutine: it goes on taking bytes from the reader until its channel of 100 lines is
  full or its scanner stops, while the engine may start a later scanner on the same
  reader. Which bytes that later scanner gets is decided by the timing of the two, not
  by the program: \<open>abandoned w k\<close> is what the reader still delivers once the
  goroutine of the iteration with \<open>k\<close> retries counted has been left behind. It is
  empty when that goroutine has come to the end of the input first.
\<close>

record world =
  upstream :: "nat \<Rightarrow> reply"
  writeFails :: "nat \<Rightarrow> bool"
  urlParses :: bool
  abandoned :: "nat \<Rightarrow> string"

text \<open>The local variables of \<open>ProcessStreamAndRetryInternally\<close> that live across the
  iterations of its outer loop. \<open>currentReader\<close> holds the bytes that the reader has
  still to deliver.\<close>

record session =
  accumulatedText :: string
  consecutiveRetryCount :: int
  isOutputtingFormalText :: bool
  swallowModeActive :: bool
  currentReader :: string
  trace :: "event list"

definition initialSession :: "string \<Rightarrow> session" where
  "initialSession initialReader =
     \<lparr>accumulatedText = [], consecutiveRetryCount = 0, isOutputtingFormalText = False,
      swallowModeActive = False, currentReader = initialReader, trace = []\<rparr>"

fun isWrite :: "event \<Rightarrow> bool" where
  "isWrite (Wrote b) = True"
| "isWrite (WriteError b) = True"
| "isWrite e = False"

fun isRequest :: "event \<Rightarrow> bool" where
  "isRequest (Requested b) = True"
| "isRequest e = False"

definition writeCalls :: "event list \<Rightarrow> nat" where
  "writeCalls tr = length (filter isWrite tr)"

definition requestsMade :: "event list \<Rightarrow> nat" where
  "requestsMade tr = length (filter isRequest tr)"

definition emit :: "event \<Rightarrow> session \<Rightarrow> session" where
  "emit e s = s\<lparr>trace := trace s @ [e]\<rparr>"

text \<open>\<open>writer.Write(bytes)\<close>; the boolean is \<open>err == nil\<close>.\<close>

definition writerWrite :: "world \<Rightarrow> string \<Rightarrow> session \<Rightarrow> bool \<times> session" where
  "writerWrite w bytes s =
     (if writeFails w (writeCalls (trace s)) then (False, emit (WriteError bytes) s)
      else (True, emit (Wrote bytes) s))"

subsection \<open>One line of the stream\<close>

text \<open>The retry decision of the loop body: the interruption reason that the ladder of
  conditions sets, empty when \<open>needsRetry\<close> stays false.\<close>

definition retryDecision :: "string \<Rightarrow> string \<Rightarrow> string \<Rightarrow> bool \<Rightarrow> string \<Rightarrow> string" where
  "retryDecision accText line textChunk isThought finishReason =
     (if finishReason \<noteq> [] \<and> isThought then ''FINISH_DURING_THOUGHT''
      else if IsBlockedLine line then ''BLOCK''
      else if finishReason = ''STOP'' then
        (let tempAccumulatedText = accText @ textChunk;
             trimmedText = TrimSpace tempAccumulatedText
         in
         if length trimmedText = 0 then ''FINISH_EMPTY_RESPONSE''
         else if \<not> HasSuffix trimmedText ''[done]'' then ''FINISH_INCOMPLETE''
         else [])
      else if finishReason \<noteq> [] \<and> finishReason \<noteq> ''MAX_TOKENS'' \<and> finishReason \<noteq> ''STOP''
        then ''FINISH_ABNORMAL''
      else [])"

text \<open>How the body of the inner loop leaves a line: on to the next line, out of the
  loop with an interruption reason, out of the loop with \<open>cleanExit\<close>, or out of the
  function with the error of the write.\<close>

datatype verdict = NextLine | Break string | CleanExit | WriteFailure

text \<open>``Line is good: forward and update state''.\<close>

definition forwardLine ::
  "world \<Rightarrow> session \<Rightarrow> string \<Rightarrow> string \<Rightarrow> bool \<Rightarrow> string \<Rightarrow> verdict \<times> session" where
  "forwardLine w s line textChunk isThought finishReason =
     (let isEndOfResponse = (finishReason = ''STOP'' \<or> finishReason = ''MAX_TOKENS'');
          processedLine = RemoveDoneTokenFromLine line isEndOfResponse
      in
      case writerWrite w (processedLine @ [CHR 0x0A, CHR 0x0A]) s of
        (False, s1) \<Rightarrow> (WriteFailure, s1)
      | (True, s1) \<Rightarrow>
          let s2 = (if textChunk \<noteq> [] \<and> \<not> isThought
                    then s1\<lparr>isOutputtingFormalText := True,
                            accumulatedText := accumulatedText s1 @ textChunk\<rparr>
                    else s1)
          in
          if finishReason = ''STOP'' \<or> finishReason = ''MAX_TOKENS'' then (CleanExit, s2)
          else (NextLine, s2))"

definition processLine :: "world \<Rightarrow> session \<Rightarrow> string \<Rightarrow> verdict \<times> session" where
  "processLine w s line =
     (let content = (if IsDataLine line then ParseLineContent line else noContent);
          textChunk = Text content;
          isThought = IsThought content
      in
      if swallowModeActive s \<and> isThought then
        (if ExtractFinishReason line \<noteq> [] then (Break ''FINISH_DURING_THOUGHT'', s)
         else (NextLine, s))
      else
        let s0 = (if swallowModeActive s then s\<lparr>swallowModeActive := False\<rparr> else s);
            finishReason = ExtractFinishReason line;
            interruptionReason =
              retryDecision (accumulatedText s0) line textChunk isThought finishReason
        in
        if interruptionReason \<noteq> [] then (Break interruptionReason, s0)
        else forwardLine w s0 line textChunk isThought finishReason)"

text \<open>
  The inner loop \<open>for line := range lineCh\<close> over the lines of the channel. The loop
  that runs to the end of the channel ends with \<open>NextLine\<close>.
\<close>

fun readLines :: "world \<Rightarrow> session \<Rightarrow> string list \<Rightarrow> verdict \<times> session" where
  "readLines w s [] = (NextLine, s)"
| "readLines w s (line # rest) =
     (case processLine w s line of
        (NextLine, s1) \<Rightarrow> readLines w s1 rest
      | (v, s1) \<Rightarrow> (v, s1))"

text \<open>
  \<open>lineCh := make(chan string, 100); go SSELineIterator(currentReader, lineCh)\<close>, and
  the inner loop over that channel, with what they do to the reader. When the loop has
  come to the end of the channel, the goroutine has closed it and is gone, and the
  reader holds what its scanner has left. When the loop is left at a line, the goroutine
  stays behind with the lines that follow, and the reader holds for a later scanner what
  the surroundings say.
\<close>

definition readStream :: "world \<Rightarrow> session \<Rightarrow> verdict \<times> session" where
  "readStream w s =
     (case readLines w s (SSELineIterator (currentReader s)) of
        (NextLine, s1) \<Rightarrow> (NextLine, s1\<lparr>currentReader := snd (scanLines (currentReader s))\<rparr>)
      | (v, s1) \<Rightarrow> (v, s1\<lparr>currentReader := abandoned w (nat (consecutiveRetryCount s))\<rparr>))"

subsection \<open>One iteration of the outer loop\<close>

text \<open>The value that \<open>ProcessStreamAndRetryInternally\<close> returns: \<open>nil\<close>, or one of its
  three errors.\<close>

datatype result =
    Completed
  | FailedToWrite
  | RetryLimitExceeded
  | NonRetryableError int

definition errorPayload :: "Config \<Rightarrow> string \<Rightarrow> string \<Rightarrow> json" where
  "errorPayload cfg interruptionReason accText =
     JObj [(''error'',
       JObj [(''code'', JNum (showInt 504)),
             (''status'', JStr ''DEADLINE_EXCEEDED''),
             (''message'',
                JStr (''Retry limit ('' @ showInt (MaxConsecutiveRetries cfg)
                      @ '') exceeded after stream interruption. Last reason: ''
                      @ interruptionReason @ ''.'')),
             (''details'',
                JArr [JObj [(''@type'', JStr ''proxy.debug''),
                            (''accumulated_text_chars'',
                               JNum (showInt (int (length accText))))]])])]"

definition errorFrame :: "string \<Rightarrow> string" where
  "errorFrame payload = ''event: error'' @ [CHR 0x0A] @ ''data: '' @ payload @ [CHR 0x0A, CHR 0x0A]"

datatype step = Again session | Return result session

text \<open>
  ``Interruption \& Retry Activation'' and the retry request, from the interruption
  reason of the stream that has just ended. \<open>json.Marshal\<close> has no error on a tree
  of JSON values, so the branch for that error is never taken and is left out; the
  failure of \<open>http.NewRequest\<close> is kept. The four headers copied into the request
  and the flush after a write play no part in what the engine does next, and are left
  out with the logging.
\<close>

definition retryAfter ::
  "Config \<Rightarrow> world \<Rightarrow> (string \<times> json) list \<Rightarrow> string \<Rightarrow> session \<Rightarrow> step" where
  "retryAfter cfg w originalRequestBody interruptionReason s =
     (let s1 = emit (Interrupted interruptionReason) s;
          s2 = (if SwallowThoughtsAfterRetry cfg \<and> isOutputtingFormalText s1
                then s1\<lparr>swallowModeActive := True\<rparr> else s1)
      in
      if MaxConsecutiveRetries cfg \<le> consecutiveRetryCount s2 then
        Return RetryLimitExceeded
          (snd (writerWrite w
             (errorFrame (Marshal (errorPayload cfg interruptionReason (accumulatedText s2)))) s2))
      else
        let s3 = s2\<lparr>consecutiveRetryCount := consecutiveRetryCount s2 + 1\<rparr>;
            retryBody = BuildRetryRequestBody originalRequestBody (accumulatedText s3);
            retryBodyBytes = Marshal (JObj retryBody)
        in
        if \<not> urlParses w then Again (emit (Slept (RetryDelayMs cfg)) s3)
        else
          let s4 = emit (Requested retryBodyBytes) s3 in
          case upstream w (requestsMade (trace s3)) of
            TransportError \<Rightarrow> Again (emit (Slept (RetryDelayMs cfg)) s4)
          | Response statusCode body \<Rightarrow>
              if nonRetryableStatuses statusCode then
                Return (NonRetryableError statusCode) (snd (writerWrite w (errorFrame body) s4))
              else if statusCode \<noteq> 200 then Again (emit (Slept (RetryDelayMs cfg)) s4)
              else Again (s4\<lparr>currentReader := body\<rparr>))"

definition streamAttempt ::
  "Config \<Rightarrow> world \<Rightarrow> (string \<times> json) list \<Rightarrow> session \<Rightarrow> step" where
  "streamAttempt cfg w originalRequestBody s =
     (case readStream w s of
        (WriteFailure, s1) \<Rightarrow> Return FailedToWrite s1
      | (CleanExit, s1) \<Rightarrow> Return Completed s1
      | (Break interruptionReason, s1) \<Rightarrow>
          retryAfter cfg w originalRequestBody interruptionReason s1
      | (NextLine, s1) \<Rightarrow> retryAfter cfg w originalRequestBody ''DROP'' s1)"


subsection \<open>The outer loop\<close>

text \<open>No line of a stream changes the retry counter, and an iteration that goes round
  again has counted one more retry, within the limit: the loop ends.\<close>

lemma writerWrite_count [simp]:
  "consecutiveRetryCount (snd (writerWrite w bytes s)) = consecutiveRetryCount s"
  by (simp add: writerWrite_def emit_def)

lemma forwardLine_count:
  "forwardLine w s line textChunk isThought finishReason = (v, s1)
   \<Longrightarrow> consecutiveRetryCount s1 = consecutiveRetryCount s"
  by (auto simp: forwardLine_def writerWrite_def emit_def Let_def split: if_splits)

lemma processLine_count:
  "processLine w s line = (v, s1) \<Longrightarrow> consecutiveRetryCount s1 = consecutiveRetryCount s"
  by (auto simp: processLine_def Let_def split: if_splits dest: forwardLine_count)

lemma readLines_count:
  "readLines w s ls = (v, s1) \<Longrightarrow> consecutiveRetryCount s1 = consecutiveRetryCount s"
proof (induction ls arbitrary: s)
  case Nil
  then show ?case by auto
next
  case (Cons line rest)
  obtain v0 s0 where p: "processLine w s line = (v0, s0)"
    by (cases "processLine w s line")
  have c0: "consecutiveRetryCount s0 = consecutiveRetryCount s"
    using p by (rule processLine_count)
  show ?case
  proof (cases "v0 = NextLine")
    case True
    with Cons.prems p have "readLines w s0 rest = (v, s1)" by simp
    with Cons.IH c0 show ?thesis by simp
  next
    case False
    with Cons.prems p have "s1 = s0"
      by (cases v0) auto
    with c0 show ?thesis by simp
  qed
qed

lemma readStream_count:
  "readStream w s = (v, s1) \<Longrightarrow> consecutiveRetryCount s1 = consecutiveRetryCount s"
proof -
  assume a: "readStream w s = (v, s1)"
  obtain v0 s0 where r: "readLines w s (SSELineIterator (currentReader s)) = (v0, s0)"
    by (cases "readLines w s (SSELineIterator (currentReader s))")
  from a r have "consecutiveRetryCount s1 = consecutiveRetryCount s0"
    by (cases v0) (auto simp: readStream_def)
  with readLines_count [OF r] show ?thesis by simp
qed

lemma retryAfter_Again:
  "retryAfter cfg w body reason s = Again s1
   \<Longrightarrow> consecutiveRetryCount s1 = consecutiveRetryCount s + 1
       \<and> consecutiveRetryCount s < MaxConsecutiveRetries cfg"
  by (auto simp: retryAfter_def Let_def emit_def split: if_splits reply.splits)

lemma streamAttempt_Again:
  "streamAttempt cfg w body s = Again s1
   \<Longrightarrow> consecutiveRetryCount s1 = consecutiveRetryCount s + 1
       \<and> consecutiveRetryCount s < MaxConsecutiveRetries cfg"
proof -
  assume a: "streamAttempt cfg w body s = Again s1"
  obtain v s0 where r: "readStream w s = (v, s0)"
    by (cases "readStream w s")
  have c: "consecutiveRetryCount s0 = consecutiveRetryCount s"
    using r by (rule readStream_count)
  from a r obtain reason where "retryAfter cfg w body reason s0 = Again s1"
    by (cases v) (auto simp: streamAttempt_def)
  from retryAfter_Again [OF this] c show ?thesis by simp
qed

function sessionLoop ::
  "Config \<Rightarrow> world \<Rightarrow> (string \<times> json) list \<Rightarrow> session \<Rightarrow> result \<times> session" where
  "sessionLoop cfg w originalRequestBody s =
     (case streamAttempt cfg w originalRequestBody s of
        Again s1 \<Rightarrow> sessionLoop cfg w originalRequestBody s1
      | Return r s1 \<Rightarrow> (r, s1))"
  by pat_completeness auto
termination
  by (relation "measure (\<lambda>(cfg, w, b, s). nat (MaxConsecutiveRetries cfg - consecutiveRetryCount s))")
     (auto dest!: streamAttempt_Again)

text \<open>\<open>ProcessStreamAndRetryInternally(cfg, initialReader, writer, originalRequestBody,
  upstreamURL, originalHeaders)\<close>: the returned error and the final state, whose trace
  holds what the client, the clock and the upstream have seen.\<close>

definition ProcessStreamAndRetryInternally ::
  "Config \<Rightarrow> world \<Rightarrow> string \<Rightarrow> (string \<times> json) list \<Rightarrow> result \<times> session" where
  "ProcessStreamAndRetryInternally cfg w initialReader originalRequestBody =
     sessionLoop cfg w originalRequestBody (initialSession initialReader)"


declare trimFront.simps [simp del] showNat.simps [simp del] lexer.simps [simp del]
  sessionLoop.simps [simp del]

section \<open>Notions used to state the properties\<close>

subsection \<open>Of lines, bodies, streams and iterations\<close>

text \<open>The map at \<open>candidates[0].content.parts[0]\<close> of the JSON object that starts at the
  first brace of a line, when every step of that path has the expected shape.\<close>

definition firstPart :: "string \<Rightarrow> (string \<times> json) list option" where
  "firstPart line =
     (if Index line ''{'' = -1 then None
      else
        case Unmarshal (drop (nat (Index line ''{'')) line) of
          None \<Rightarrow> None
        | Some data \<Rightarrow>
        (case asList (map_of data ''candidates'') of
          Some (c0 # _) \<Rightarrow>
        (case asMap (Some c0) of
          None \<Rightarrow> None
        | Some candidate \<Rightarrow>
        (case asMap (map_of candidate ''content'') of
          None \<Rightarrow> None
        | Some content \<Rightarrow>
        (case asList (map_of content ''parts'') of
          Some (p0 # _) \<Rightarrow> asMap (Some p0)
        | _ \<Rightarrow> None)))
        | _ \<Rightarrow> None))"

text \<open>What the line classifier gives the loop body for a line.\<close>

definition classify :: "string \<Rightarrow> LineContent" where
  "classify line = (if IsDataLine line then ParseLineContent line else noContent)"

text \<open>The list that \<open>BuildRetryRequestBody\<close> takes for the contents of a body: the value
  under \<open>contents\<close> when it is a list, the empty list otherwise.\<close>

definition contentsOf :: "(string \<times> json) list \<Rightarrow> json list" where
  "contentsOf body = (case asList (map_of body ''contents'') of Some cs \<Rightarrow> cs | None \<Rightarrow> [])"

text \<open>The interruption with which the inner loop has ended, if it has ended with one: the
  reason of the \<open>break\<close>, or \<open>DROP\<close> when the channel was closed without a decision.\<close>

fun interruptionOf :: "verdict \<Rightarrow> string option" where
  "interruptionOf NextLine = Some ''DROP''"
| "interruptionOf (Break reason) = Some reason"
| "interruptionOf CleanExit = None"
| "interruptionOf WriteFailure = None"

text \<open>A reply to a continuation request after which the source sleeps and goes round
  the loop: a transport error, or a response whose status is neither 200 nor one of the
  five that end the session.\<close>

fun failedAttempt :: "reply \<Rightarrow> bool" where
  "failedAttempt TransportError = True"
| "failedAttempt (Response statusCode b) =
     (statusCode \<noteq> 200 \<and> \<not> nonRetryableStatuses statusCode)"

fun stateOf :: "step \<Rightarrow> session" where
  "stateOf (Again s) = s"
| "stateOf (Return r s) = s"

text \<open>The state at the head of the iteration number \<open>n\<close> of the outer loop, counted
  from 0 at the state given; \<open>None\<close> when the loop has returned before.\<close>

fun stateAtPass ::
  "nat \<Rightarrow> Config \<Rightarrow> world \<Rightarrow> (string \<times> json) list \<Rightarrow> session \<Rightarrow> session option" where
  "stateAtPass 0 cfg w body s = Some s"
| "stateAtPass (Suc n) cfg w body s =
     (case streamAttempt cfg w body s of
        Again s1 \<Rightarrow> stateAtPass n cfg w body s1
      | Return r s1 \<Rightarrow> None)"


subsection \<open>Concrete lines, bodies, surroundings and states\<close>

text \<open>The line feed.\<close>

definition nl :: string where "nl = [CHR 0x0A]"

text \<open>A configuration with the maximum given, the default delay and the swallow option
  on; surroundings in which the client takes every write, the URL is valid, and a
  goroutine left behind has taken all that its reader had.\<close>

definition config :: "int \<Rightarrow> Config" where
  "config n = \<lparr>MaxConsecutiveRetries = n, RetryDelayMs = 750, SwallowThoughtsAfterRetry = True\<rparr>"

definition replying :: "(nat \<Rightarrow> reply) \<Rightarrow> world" where
  "replying f =
     \<lparr>upstream = f, writeFails = (\<lambda>k. False), urlParses = True, abandoned = (\<lambda>k. [])\<rparr>"

definition unreachableUpstream :: world where
  "unreachableUpstream = replying (\<lambda>k. TransportError)"

text \<open>A request body, and the bytes of the continuation request built from it when the
  accumulated text is \<open>Part A.\<close>.\<close>

definition chatBody :: "(string \<times> json) list" where
  "chatBody =
     [(''contents'', JArr [message ''user'' ''Hi'', message ''model'' ''Hello'']),
      (''generationConfig'', JObj [])]"

definition continuationAfterPartA :: string where
  "continuationAfterPartA = Marshal (JObj (BuildRetryRequestBody chatBody ''Part A.''))"

text \<open>Lines of a stream.\<close>

definition thoughtLine :: string where
  \<open>thoughtLine = ''data: {"candidates":[{"content":{"parts":[{"text":"hm[done]","thought":true}]},"finishReason":"STOP"}]}''\<close>





text \<open>The bytes of the continuation requests built from the request body when nothing
  has been accumulated.\<close>

definition continuationFromNothing :: string where
  "continuationFromNothing = Marshal (JObj (BuildRetryRequestBody chatBody []))"

text \<open>The stream that sends \<open>Part A.\<close> and drops: the states it leads to when the upstream
  can then not be reached, and the error frames.\<close>

definition partALine :: string where
  \<open>partALine = ''data: {"candidates":[{"content":{"parts":[{"text":"Part A."}]}}]}''\<close>

definition afterPartA :: session where
  "afterPartA =
     \<lparr>accumulatedText = ''Part A.'', consecutiveRetryCount = 0,
      isOutputtingFormalText = True, swallowModeActive = False, currentReader = [],
      trace = [Wrote (partALine @ nl @ nl)]\<rparr>"

definition exhaustedFrame :: string where
  \<open>exhaustedFrame = ''event: error'' @ nl @ ''data: {"error":{"code":504,"details":[{"@type":"proxy.debug","accumulated_text_chars":7}],"message":"Retry limit (0) exceeded after stream interruption. Last reason: DROP.","status":"DEADLINE_EXCEEDED"}}'' @ nl @ nl\<close>

definition badKeyBody :: string where
  \<open>badKeyBody = ''{"error":{"code":401,"message":"bad key"}}''\<close>

definition badKeyFrame :: string where
  "badKeyFrame = ''event: error'' @ nl @ ''data: '' @ badKeyBody @ nl @ nl"

definition afterFailedRetry :: session where
  "afterFailedRetry =
     \<lparr>accumulatedText = ''Part A.'', consecutiveRetryCount = 1,
      isOutputtingFormalText = True, swallowModeActive = True, currentReader = [],
      trace = [Wrote (partALine @ nl @ nl), Interrupted ''DROP'',
               Requested continuationAfterPartA, Slept 750]\<rparr>"

definition afterSecondFailedRetry :: session where
  "afterSecondFailedRetry =
     \<lparr>accumulatedText = ''Part A.'', consecutiveRetryCount = 2,
      isOutputtingFormalText = True, swallowModeActive = True, currentReader = [],
      trace = [Wrote (partALine @ nl @ nl), Interrupted ''DROP'',
               Requested continuationAfterPartA, Slept 750, Interrupted ''DROP'',
               Requested continuationAfterPartA, Slept 750]\<rparr>"

definition exhaustedFrameOfTwo :: string where
  \<open>exhaustedFrameOfTwo = ''event: error'' @ nl @ ''data: {"error":{"code":504,"details":[{"@type":"proxy.debug","accumulated_text_chars":7}],"message":"Retry limit (2) exceeded after stream interruption. Last reason: DROP.","status":"DEADLINE_EXCEEDED"}}'' @ nl @ nl\<close>

definition exhaustedAfterTwo :: session where
  "exhaustedAfterTwo =
     \<lparr>accumulatedText = ''Part A.'', consecutiveRetryCount = 2,
      isOutputtingFormalText = True, swallowModeActive = True, currentReader = [],
      trace = [Wrote (partALine @ nl @ nl), Interrupted ''DROP'',
               Requested continuationAfterPartA, Slept 750, Interrupted ''DROP'',
               Requested continuationAfterPartA, Slept 750, Interrupted ''DROP'',
               Wrote exhaustedFrameOfTwo]\<rparr>"

text \<open>An upstream that answers every continuation request with the status 500, and
  the end of the session that it leads to with a maximum of 1.\<close>

definition overloadedUpstream :: world where
  "overloadedUpstream = replying (\<lambda>k. Response 500 ''overloaded'')"

definition exhaustedFrameOfOne :: string where
  \<open>exhaustedFrameOfOne = ''event: error'' @ nl @ ''data: {"error":{"code":504,"details":[{"@type":"proxy.debug","accumulated_text_chars":7}],"message":"Retry limit (1) exceeded after stream interruption. Last reason: DROP.","status":"DEADLINE_EXCEEDED"}}'' @ nl @ nl\<close>

definition exhaustedAfterOne :: session where
  "exhaustedAfterOne =
     \<lparr>accumulatedText = ''Part A.'', consecutiveRetryCount = 1,
      isOutputtingFormalText = True, swallowModeActive = True, currentReader = [],
      trace = [Wrote (partALine @ nl @ nl), Interrupted ''DROP'',
               Requested continuationAfterPartA, Slept 750, Interrupted ''DROP'',
               Wrote exhaustedFrameOfOne]\<rparr>"




text \<open>The continuation that brings \<open> Part B.[done]\<close>.\<close>

definition partBLine :: string where
  \<open>partBLine = ''data: {"candidates":[{"content":{"parts":[{"text":" Part B.[done]"}]},"finishReason":"STOP"}]}''\<close>

definition partBForwarded :: string where
  \<open>partBForwarded = ''data: {"candidates":[{"content":{"parts":[{"text":"Part B."}]},"finishReason":"STOP"}]}''\<close>

definition partBUpstream :: world where
  "partBUpstream = replying (\<lambda>k. Response 200 (partBLine @ nl @ nl))"

definition continuingWithPartB :: session where
  "continuingWithPartB =
     \<lparr>accumulatedText = ''Part A.'', consecutiveRetryCount = 1,
      isOutputtingFormalText = True, swallowModeActive = True,
      currentReader = partBLine @ nl @ nl,
      trace = [Wrote (partALine @ nl @ nl), Interrupted ''DROP'',
               Requested continuationAfterPartA]\<rparr>"

definition closedAfterPartB :: session where
  "closedAfterPartB =
     \<lparr>accumulatedText = ''Part A. Part B.[done]'', consecutiveRetryCount = 1,
      isOutputtingFormalText = True, swallowModeActive = False, currentReader = [],
      trace = [Wrote (partALine @ nl @ nl), Interrupted ''DROP'',
               Requested continuationAfterPartA, Wrote (partBForwarded @ nl @ nl)]\<rparr>"

section \<open>The sentinel editor\<close>

text \<open>
  C10. A line given to \<open>RemoveDoneTokenFromLine\<close> as a terminal line comes back byte for
  byte when the first part of its first candidate has no string under \<open>text\<close>, or has
  the boolean \<open>true\<close> under \<open>thought\<close> (the value on which the assertion
  \<open>part["thought"].(bool)\<close> gives \<open>true\<close>): the sentinel is not looked for.
\<close>

theorem sentinel_editor_keeps_thought_and_textless_lines:
  assumes "firstPart line = Some part"
    and "asString (map_of part ''text'') = None \<or> asBool (map_of part ''thought'') = Some True"
  shows "RemoveDoneTokenFromLine line True = line"
  using assms
  by (auto simp: RemoveDoneTokenFromLine_def firstPart_def Let_def
           split: option.splits list.splits if_splits)

lemma thoughtLine_part:
  "firstPart thoughtLine = Some [(''text'', JStr ''hm[done]''), (''thought'', JBool True)]"
  by code_simp

theorem sentinel_editor_keeps_thought_and_textless_lines_witness:
  "firstPart thoughtLine = Some [(''text'', JStr ''hm[done]''), (''thought'', JBool True)]
   \<and> asBool (map_of [(''text'', JStr ''hm[done]''), (''thought'', JBool True)] ''thought'')
       = Some True
   \<and> RemoveDoneTokenFromLine thoughtLine True = thoughtLine"
  using thoughtLine_part sentinel_editor_keeps_thought_and_textless_lines [OF thoughtLine_part]
  by simp


section \<open>The continuation builder\<close>

lemma lastUserIndex_none:
  "n \<le> length cs \<Longrightarrow> lastUserIndex cs n = -1 \<longleftrightarrow> (\<forall>i<n. \<not> isUserMessage (cs ! i))"
  by (induction n) (auto simp: less_Suc_eq)

lemma lastUserIndex_range: "lastUserIndex cs n = -1 \<or> (0 \<le> lastUserIndex cs n \<and> lastUserIndex cs n < int n)"
  by (induction n) auto

lemma lastUserIndex_some:
  "lastUserIndex cs n = int i \<Longrightarrow>
     i < n \<and> isUserMessage (cs ! i) \<and> (\<forall>j. i < j \<and> j < n \<longrightarrow> \<not> isUserMessage (cs ! j))"
proof (induction n)
  case 0
  then show ?case by simp
next
  case (Suc n)
  show ?case
  proof (cases "isUserMessage (cs ! n)")
    case True
    with Suc.prems have "i = n" by simp
    with True show ?thesis by auto
  next
    case False
    with Suc.prems have "lastUserIndex cs n = int i" by simp
    from Suc.IH [OF this] False show ?thesis
      by (auto simp: less_Suc_eq)
  qed
qed

lemma split_at_last_user:
  assumes "lastUserIndex cs (length cs) = int i"
  shows "cs = take i cs @ (cs ! i) # drop (Suc i) cs \<and> isUserMessage (cs ! i)
         \<and> (\<forall>m \<in> set (drop (Suc i) cs). \<not> isUserMessage m)"
proof -
  from lastUserIndex_some [OF assms]
  have i: "i < length cs" and u: "isUserMessage (cs ! i)"
    and later: "\<forall>j. i < j \<and> j < length cs \<longrightarrow> \<not> isUserMessage (cs ! j)"
    by auto
  have "\<forall>m \<in> set (drop (Suc i) cs). \<not> isUserMessage m"
  proof
    fix m assume "m \<in> set (drop (Suc i) cs)"
    then obtain k where "k < length (drop (Suc i) cs)" "m = drop (Suc i) cs ! k"
      by (auto simp: in_set_conv_nth)
    then have "m = cs ! (Suc i + k)" "Suc i + k < length cs" by auto
    with later show "\<not> isUserMessage m" by auto
  qed
  with i u show ?thesis by (simp add: id_take_nth_drop [symmetric])
qed

lemma map_of_update_other: "k' \<noteq> k \<Longrightarrow> map_of (AList.update k v al) k' = map_of al k'"
  by (simp add: update_conv')

text \<open>
  C8. The body that \<open>BuildRetryRequestBody\<close> returns has under \<open>contents\<close> the
  original contents (taken as empty when the original body has no list there) with
  two messages put in right after the last message whose role is \<open>user\<close>, or at the
  end when there is none: a \<open>model\<close> message whose one part is the accumulated text,
  then a \<open>user\<close> message whose one part is the fixed request to continue. Every other
  key of the body has the value it had.
\<close>

theorem continuation_inserted_after_last_user:
  fixes originalBody :: "(string \<times> json) list" and accumulatedText :: string
  defines "contents \<equiv> contentsOf originalBody"
    and "history \<equiv>
      [JObj [(''role'', JStr ''model''), (''parts'', JArr [JObj [(''text'', JStr accumulatedText)]])],
       JObj [(''role'', JStr ''user''),
             (''parts'', JArr [JObj [(''text'',
                JStr ''Continue exactly where you left off without any preamble or repetition.'')]])]]"
  shows "(\<exists>new. map_of (BuildRetryRequestBody originalBody accumulatedText) ''contents'' = Some (JArr new)
           \<and> (if \<exists>m \<in> set contents. isUserMessage m
               then \<exists>before u after. contents = before @ u # after \<and> isUserMessage u
                      \<and> (\<forall>m \<in> set after. \<not> isUserMessage m)
                      \<and> new = before @ u # history @ after
               else new = contents @ history))
         \<and> (\<forall>k. k \<noteq> ''contents'' \<longrightarrow>
               map_of (BuildRetryRequestBody originalBody accumulatedText) k = map_of originalBody k)"
proof -
  let ?cs = "contentsOf originalBody"
  let ?l = "lastUserIndex ?cs (length ?cs)"
  have hist: "history = [message ''model'' accumulatedText, message ''user'' continuePrompt]"
    by (simp add: history_def message_def continuePrompt_def)
  have other: "\<forall>k. k \<noteq> ''contents'' \<longrightarrow>
               map_of (BuildRetryRequestBody originalBody accumulatedText) k = map_of originalBody k"
    by (simp add: BuildRetryRequestBody_def Let_def map_of_update_other)
  show ?thesis
  proof (cases "?l = -1")
    case True
    then have nouser: "\<not> (\<exists>m \<in> set ?cs. isUserMessage m)"
      using lastUserIndex_none [of "length ?cs" ?cs] by (auto simp: in_set_conv_nth)
    have "map_of (BuildRetryRequestBody originalBody accumulatedText) ''contents''
          = Some (JArr (?cs @ history))"
      using True by (simp add: BuildRetryRequestBody_def Let_def contentsOf_def hist update_conv')
    with nouser other show ?thesis by (simp add: contents_def)
  next
    case False
    with lastUserIndex_range [of ?cs "length ?cs"]
    obtain i where i: "?l = int i" by (metis nonneg_int_cases)
    from split_at_last_user [OF i]
    have sp: "?cs = take i ?cs @ (?cs ! i) # drop (Suc i) ?cs" and u: "isUserMessage (?cs ! i)"
      and after: "\<forall>m \<in> set (drop (Suc i) ?cs). \<not> isUserMessage m" by auto
    from lastUserIndex_some [OF i] have ilt: "i < length ?cs" by simp
    have tk: "take (Suc i) ?cs = take i ?cs @ [?cs ! i]"
      using ilt by (simp add: take_Suc_conv_app_nth)
    have nat1: "nat (int i + 1) = Suc i" by simp
    have "map_of (BuildRetryRequestBody originalBody accumulatedText) ''contents''
          = Some (JArr (take i ?cs @ (?cs ! i) # history @ drop (Suc i) ?cs))"
      using False i tk
      by (simp add: BuildRetryRequestBody_def Let_def contentsOf_def [symmetric] hist [symmetric]
            update_conv' nat1)
    moreover have "\<exists>m \<in> set ?cs. isUserMessage m"
      using u ilt nth_mem by blast
    ultimately show ?thesis
      using other sp u after unfolding contents_def by (auto intro!: exI)
  qed
qed

lemma chatBody_has_user: "\<exists>m \<in> set (contentsOf chatBody). isUserMessage m"
  by (simp add: chatBody_def contentsOf_def message_def isUserMessage_def)

theorem continuation_inserted_after_last_user_witness:
  "(\<exists>m \<in> set (contentsOf chatBody). isUserMessage m)
   \<and> map_of (BuildRetryRequestBody chatBody ''Part A.'') ''contents''
       = Some (JArr [message ''user'' ''Hi'', message ''model'' ''Part A.'',
                     message ''user'' continuePrompt, message ''model'' ''Hello''])
   \<and> map_of (BuildRetryRequestBody chatBody ''Part A.'') ''generationConfig''
       = map_of chatBody ''generationConfig''"
proof -
  have other: "map_of (BuildRetryRequestBody chatBody ''Part A.'') ''generationConfig''
               = map_of chatBody ''generationConfig''"
    using continuation_inserted_after_last_user [of chatBody "''Part A.''"] by simp
  have "map_of (BuildRetryRequestBody chatBody ''Part A.'') ''contents''
        = Some (JArr [message ''user'' ''Hi'', message ''model'' ''Part A.'',
                      message ''user'' continuePrompt, message ''model'' ''Hello''])"
    by (simp add: BuildRetryRequestBody_def chatBody_def message_def isUserMessage_def
          numeral_2_eq_2)
  with other chatBody_has_user show ?thesis by simp
qed

section \<open>The retry engine\<close>

subsection \<open>How a stream ends and how the loop goes on\<close>

lemma streamAttempt_interrupted:
  "readStream w s = (v, s1) \<Longrightarrow> interruptionOf v = Some reason
   \<Longrightarrow> streamAttempt cfg w body s = retryAfter cfg w body reason s1"
  by (cases v) (auto simp: streamAttempt_def)

lemma sessionLoop_Return:
  "streamAttempt cfg w body s = Return r s1 \<Longrightarrow> sessionLoop cfg w body s = (r, s1)"
  by (simp add: sessionLoop.simps)

lemma sessionLoop_Again:
  "streamAttempt cfg w body s = Again s1 \<Longrightarrow> sessionLoop cfg w body s = sessionLoop cfg w body s1"
  by (simp add: sessionLoop.simps)

text \<open>The inner loop is left at the first line that does not send it on to the next
  one, and the goroutine stays behind.\<close>

lemma readStream_first:
  assumes "SSELineIterator (currentReader s) = line # rest"
    and "processLine w s line = (v, s1)" and "v \<noteq> NextLine"
  shows "readStream w s
         = (v, s1\<lparr>currentReader := abandoned w (nat (consecutiveRetryCount s))\<rparr>)"
  using assms by (cases v) (simp_all add: readStream_def)

lemma scanLines_Nil [simp]: "scanLines [] = ([], [])"
  by (simp add: scanLines_def)

lemma SSELineIterator_Nil [simp]: "SSELineIterator [] = []"
  by (simp add: SSELineIterator_def)

text \<open>A line of which 65536 bytes come without a line feed stops the scanner: it
  delivers nothing of that line, and the bytes after these stay in the reader.\<close>

lemma scanFrom_too_long:
  "length cur + length l = 65536 \<Longrightarrow> CHR 0x0A \<notin> set l \<Longrightarrow>
   scanFrom cur (l @ rest) = ([], rest)"
proof (induction l arbitrary: cur)
  case Nil
  then show ?case by (cases rest) auto
next
  case (Cons x xs)
  from Cons.prems have "x \<noteq> CHR 0x0A" "\<not> 65536 \<le> length cur"
    by auto
  then have "scanFrom cur ((x # xs) @ rest) = scanFrom (cur @ [x]) (xs @ rest)"
    by simp
  also have "\<dots> = ([], rest)"
    using Cons.prems by (intro Cons.IH) auto
  finally show ?case .
qed

lemma scanLines_too_long:
  "length l = 65536 \<Longrightarrow> CHR 0x0A \<notin> set l \<Longrightarrow> scanLines (l @ rest) = ([], rest)"
  unfolding scanLines_def by (rule scanFrom_too_long) simp_all

text \<open>A scanner that delivers no line: the loop comes to the end of the channel at
  once.\<close>

lemma readStream_end:
  "SSELineIterator (currentReader s) = [] \<Longrightarrow>
   readStream w s = (NextLine, s\<lparr>currentReader := snd (scanLines (currentReader s))\<rparr>)"
  by (simp add: readStream_def)

text \<open>What a stream leaves in the reader.\<close>

lemma readStream_reader:
  assumes "readStream w s = (v, s1)"
  shows "currentReader s1 =
     (if v = NextLine then snd (scanLines (currentReader s))
      else abandoned w (nat (consecutiveRetryCount s)))"
proof -
  obtain v0 s0 where r: "readLines w s (SSELineIterator (currentReader s)) = (v0, s0)"
    by (cases "readLines w s (SSELineIterator (currentReader s))")
  from assms r show ?thesis
    by (cases v0) (auto simp: readStream_def)
qed

text \<open>A stream writes to the client and does nothing else to the outside.\<close>

lemma forwardLine_trace:
  "forwardLine w s line textChunk isThought finishReason = (v, s1) \<Longrightarrow>
   \<exists>ws. trace s1 = trace s @ ws \<and> list_all isWrite ws"
  by (auto simp: forwardLine_def writerWrite_def emit_def Let_def split: if_splits)

lemma processLine_trace:
  "processLine w s line = (v, s1) \<Longrightarrow> \<exists>ws. trace s1 = trace s @ ws \<and> list_all isWrite ws"
  by (auto simp: processLine_def Let_def split: if_splits dest: forwardLine_trace)

lemma readLines_trace:
  "readLines w s ls = (v, s1) \<Longrightarrow> \<exists>ws. trace s1 = trace s @ ws \<and> list_all isWrite ws"
proof (induction ls arbitrary: s)
  case Nil
  then show ?case by auto
next
  case (Cons line rest)
  obtain v0 s0 where p: "processLine w s line = (v0, s0)"
    by (cases "processLine w s line")
  from processLine_trace [OF p] obtain ws0
    where t0: "trace s0 = trace s @ ws0" "list_all isWrite ws0" by blast
  show ?case
  proof (cases "v0 = NextLine")
    case True
    with Cons.prems p have "readLines w s0 rest = (v, s1)" by simp
    from Cons.IH [OF this] obtain ws1
      where "trace s1 = trace s0 @ ws1" "list_all isWrite ws1" by blast
    with t0 have "trace s1 = trace s @ (ws0 @ ws1) \<and> list_all isWrite (ws0 @ ws1)" by simp
    then show ?thesis by blast
  next
    case False
    with Cons.prems p have "s1 = s0"
      by (cases v0) auto
    with t0 show ?thesis by blast
  qed
qed

lemma readStream_trace:
  assumes "readStream w s = (v, s1)"
  shows "\<exists>ws. trace s1 = trace s @ ws \<and> list_all isWrite ws"
proof -
  obtain v0 s0 where r: "readLines w s (SSELineIterator (currentReader s)) = (v0, s0)"
    by (cases "readLines w s (SSELineIterator (currentReader s))")
  from assms r have "trace s1 = trace s0"
    by (cases v0) (auto simp: readStream_def)
  with readLines_trace [OF r] show ?thesis by simp
qed

text \<open>What follows an interruption, whatever the budget and the upstream: the
  interruption is reported before anything else, the accumulated text stays, and the
  iteration does not return as a stream that has completed or as a write that has
  failed.\<close>

lemma retryAfter_raises:
  "(\<forall>s'. retryAfter cfg w body reason s \<noteq> Return Completed s')
   \<and> (\<forall>s'. retryAfter cfg w body reason s \<noteq> Return FailedToWrite s')
   \<and> take (Suc (length (trace s))) (trace (stateOf (retryAfter cfg w body reason s)))
       = trace s @ [Interrupted reason]
   \<and> accumulatedText (stateOf (retryAfter cfg w body reason s)) = accumulatedText s"
  by (auto simp: retryAfter_def Let_def emit_def writerWrite_def split: reply.splits)

subsection \<open>The validation of a \<open>STOP\<close> finish\<close>





subsection \<open>The two error frames, and the attempt that fails\<close>

lemma writeCalls_snoc [simp]:
  "writeCalls (tr @ [e]) = (if isWrite e then Suc (writeCalls tr) else writeCalls tr)"
  by (simp add: writeCalls_def)

lemma requestsMade_snoc [simp]:
  "requestsMade (tr @ [e]) = (if isRequest e then Suc (requestsMade tr) else requestsMade tr)"
  by (simp add: requestsMade_def)

lemma showInt_504: "showInt 504 = ''504''"
  by (simp add: showInt_def showNat.simps digitChar_def)

text \<open>The frame that is written when the budget is exhausted.\<close>

lemma errorFrame_bytes:
  "errorFrame (Marshal (errorPayload cfg reason accText))
   = ''event: error'' @ [CHR 0x0A] @ ''data: '' @
     Marshal (JObj [(''error'',
        JObj [(''code'', JNum ''504''),
              (''status'', JStr ''DEADLINE_EXCEEDED''),
              (''message'',
                 JStr (''Retry limit ('' @ showInt (MaxConsecutiveRetries cfg)
                       @ '') exceeded after stream interruption. Last reason: ''
                       @ reason @ ''.'')),
              (''details'',
                 JArr [JObj [(''@type'', JStr ''proxy.debug''),
                             (''accumulated_text_chars'',
                                JNum (showInt (int (length accText))))]])])])
     @ [CHR 0x0A, CHR 0x0A]"
  by (simp add: errorPayload_def errorFrame_def showInt_504 del: Marshal.simps)

lemma retryAfter_exhausted:
  assumes "MaxConsecutiveRetries cfg \<le> consecutiveRetryCount s"
  shows "retryAfter cfg w body reason s =
     Return RetryLimitExceeded
       (s\<lparr>trace := trace s @
            [Interrupted reason,
             if writeFails w (writeCalls (trace s))
             then WriteError (errorFrame (Marshal (errorPayload cfg reason (accumulatedText s))))
             else Wrote (errorFrame (Marshal (errorPayload cfg reason (accumulatedText s))))],
          swallowModeActive :=
            (swallowModeActive s \<or> SwallowThoughtsAfterRetry cfg \<and> isOutputtingFormalText s)\<rparr>)"
  using assms
  by (cases s) (auto simp: retryAfter_def Let_def emit_def writerWrite_def simp del: Marshal.simps)

text \<open>A continuation attempt that fails: the retry is counted, the request is sent,
  the engine sleeps, and the loop goes round with the reader as it is.\<close>

lemma retryAfter_failed:
  assumes budget: "consecutiveRetryCount s < MaxConsecutiveRetries cfg"
    and url: "urlParses w"
    and failed: "failedAttempt (upstream w (requestsMade (trace s)))"
  shows "retryAfter cfg w body reason s =
     Again (s\<lparr>trace := trace s @ [Interrupted reason,
                                  Requested (Marshal (JObj (BuildRetryRequestBody body (accumulatedText s)))),
                                  Slept (RetryDelayMs cfg)],
              swallowModeActive :=
                (swallowModeActive s \<or> SwallowThoughtsAfterRetry cfg \<and> isOutputtingFormalText s),
              consecutiveRetryCount := consecutiveRetryCount s + 1\<rparr>)"
  using assms
  by (cases s; cases "upstream w (requestsMade (trace s))")
     (auto simp: retryAfter_def Let_def emit_def)

lemma retryAfter_request:
  assumes "consecutiveRetryCount s < MaxConsecutiveRetries cfg" and "urlParses w"
  shows "consecutiveRetryCount (stateOf (retryAfter cfg w body reason s))
           = consecutiveRetryCount s + 1
       \<and> take (length (trace s) + 2) (trace (stateOf (retryAfter cfg w body reason s)))
           = trace s @ [Interrupted reason,
                        Requested (Marshal (JObj (BuildRetryRequestBody body (accumulatedText s))))]"
  using assms
  by (cases "upstream w (requestsMade (trace s))")
     (auto simp: retryAfter_def Let_def emit_def writerWrite_def)

text \<open>The iteration on a reader whose scanner delivers no line: the interruption
  \<open>DROP\<close>.\<close>

lemma stale_pass:
  assumes "SSELineIterator (currentReader s) = []"
  shows "streamAttempt cfg w body s
         = retryAfter cfg w body ''DROP'' (s\<lparr>currentReader := snd (scanLines (currentReader s))\<rparr>)"
  using streamAttempt_interrupted [OF readStream_end [OF assms], where reason = "''DROP''"]
  by simp

text \<open>After a failed attempt that has used the last retry, a reader whose scanner
  delivers no line ends the session.\<close>

lemma failed_then_exhausted:
  assumes again: "streamAttempt cfg w body s = Again s2"
    and stale: "SSELineIterator (currentReader s2) = []"
    and exhausted: "MaxConsecutiveRetries cfg \<le> consecutiveRetryCount s2"
  shows "\<exists>s3. sessionLoop cfg w body s = (RetryLimitExceeded, s3)
           \<and> trace s3 = trace s2 @
                 [Interrupted ''DROP'',
                  if writeFails w (writeCalls (trace s2))
                  then WriteError (errorFrame (Marshal (errorPayload cfg ''DROP'' (accumulatedText s2))))
                  else Wrote (errorFrame (Marshal (errorPayload cfg ''DROP'' (accumulatedText s2))))]"
proof -
  let ?s = "s2\<lparr>currentReader := snd (scanLines (currentReader s2))\<rparr>"
  have "MaxConsecutiveRetries cfg \<le> consecutiveRetryCount ?s"
    using exhausted by simp
  from retryAfter_exhausted [OF this, of w body "''DROP''"] stale_pass [OF stale, of cfg w body]
  obtain s3 where r: "streamAttempt cfg w body s2 = Return RetryLimitExceeded s3"
    and t: "trace s3 = trace s2 @
                 [Interrupted ''DROP'',
                  if writeFails w (writeCalls (trace s2))
                  then WriteError (errorFrame (Marshal (errorPayload cfg ''DROP'' (accumulatedText s2))))
                  else Wrote (errorFrame (Marshal (errorPayload cfg ''DROP'' (accumulatedText s2))))]"
    by (auto simp del: Marshal.simps)
  from sessionLoop_Again [OF again] sessionLoop_Return [OF r]
  have "sessionLoop cfg w body s = (RetryLimitExceeded, s3)" by simp
  with t show ?thesis by blast
qed

text \<open>
  C5. A stream ends with an interruption while the retry counter has reached the
  configured maximum. Then the engine makes one more write and no request: the frame
  \<open>event: error\<close>, a \<open>data:\<close> line with the JSON object whose \<open>error\<close> has
  \<open>code\<close> 504, \<open>status\<close> \<open>DEADLINE_EXCEEDED\<close>, the message with the maximum and
  the reason of this interruption, and in \<open>details[0]\<close> the number of bytes of the
  accumulated text, then the blank line; and the session returns the error
  \<open>retry limit exceeded\<close>.
\<close>

theorem budget_exhaustion_error_frame:
  assumes stream: "readStream w s = (v, s1)"
    and interrupted: "interruptionOf v = Some reason"
    and exhausted: "MaxConsecutiveRetries cfg \<le> consecutiveRetryCount s"
  defines "payload \<equiv>
      JObj [(''error'',
        JObj [(''code'', JNum ''504''),
              (''status'', JStr ''DEADLINE_EXCEEDED''),
              (''message'',
                 JStr (''Retry limit ('' @ showInt (MaxConsecutiveRetries cfg)
                       @ '') exceeded after stream interruption. Last reason: ''
                       @ reason @ ''.'')),
              (''details'',
                 JArr [JObj [(''@type'', JStr ''proxy.debug''),
                             (''accumulated_text_chars'',
                                JNum (showInt (int (length (accumulatedText s1)))))]])])]"
  defines "frame \<equiv> ''event: error'' @ [CHR 0x0A] @ ''data: '' @ Marshal payload @ [CHR 0x0A, CHR 0x0A]"
  shows "\<exists>s2. sessionLoop cfg w body s = (RetryLimitExceeded, s2)
           \<and> trace s2 = trace s1 @ [Interrupted reason,
                                     if writeFails w (writeCalls (trace s1)) then WriteError frame
                                     else Wrote frame]
           \<and> accumulatedText s2 = accumulatedText s1
           \<and> consecutiveRetryCount s2 = consecutiveRetryCount s"
proof -
  have c: "consecutiveRetryCount s1 = consecutiveRetryCount s"
    using stream by (rule readStream_count)
  have p: "errorPayload cfg reason (accumulatedText s1) = payload"
    by (simp add: errorPayload_def payload_def showInt_504)
  have f: "errorFrame (Marshal payload) = frame"
    by (simp add: errorFrame_def frame_def)
  have "streamAttempt cfg w body s = retryAfter cfg w body reason s1"
    using stream interrupted by (rule streamAttempt_interrupted)
  also have "\<dots> = Return RetryLimitExceeded
      (snd (writerWrite w frame
         ((if SwallowThoughtsAfterRetry cfg \<and> isOutputtingFormalText s1
           then (emit (Interrupted reason) s1)\<lparr>swallowModeActive := True\<rparr>
           else emit (Interrupted reason) s1))))"
    using exhausted c by (simp add: retryAfter_def Let_def emit_def p f)
  finally have "sessionLoop cfg w body s = (RetryLimitExceeded,
      snd (writerWrite w frame
         ((if SwallowThoughtsAfterRetry cfg \<and> isOutputtingFormalText s1
           then (emit (Interrupted reason) s1)\<lparr>swallowModeActive := True\<rparr>
           else emit (Interrupted reason) s1))))"
    by (rule sessionLoop_Return)
  then show ?thesis
    using c by (auto simp: writerWrite_def emit_def)
qed

text \<open>
  C7, as the code has it. A continuation request is answered with a status code and
  a body. When the code is 400, 401, 403, 404 or 429, the engine writes one frame,
  \<open>event: error\<close> with the body as it came after \<open>data:\<close>, and the session returns
  the error of that status with no request after this one. With any other code the
  iteration does not return: the loop goes round again. When that code is not 200
  either, the engine has counted the retry, sent the request and slept
  \<open>RetryDelayMs\<close>, and the loop goes round with the reader it had; if then the scanner
  on that reader delivers no line and the counter has reached the maximum, the session
  does end: the interruption \<open>DROP\<close> is reported, the frame of the exhausted budget is
  written, and the session returns \<open>retry limit exceeded\<close> with no further request.
\<close>

theorem fatal_status_during_retry:
  fixes body :: "(string \<times> json) list"
  assumes stream: "readStream w s = (v, s1)"
    and interrupted: "interruptionOf v = Some reason"
    and budget: "consecutiveRetryCount s < MaxConsecutiveRetries cfg"
    and url: "urlParses w"
    and response: "upstream w (requestsMade (trace s1)) = Response statusCode upstreamBody"
  defines "frame \<equiv> ''event: error'' @ [CHR 0x0A] @ ''data: '' @ upstreamBody @ [CHR 0x0A, CHR 0x0A]"
    and "request \<equiv> Requested (Marshal (JObj (BuildRetryRequestBody body (accumulatedText s1))))"
    and "exhausted \<equiv> ''event: error'' @ [CHR 0x0A] @ ''data: '' @
      Marshal (JObj [(''error'',
        JObj [(''code'', JNum ''504''),
              (''status'', JStr ''DEADLINE_EXCEEDED''),
              (''message'',
                 JStr (''Retry limit ('' @ showInt (MaxConsecutiveRetries cfg)
                       @ '') exceeded after stream interruption. Last reason: ''
                       @ ''DROP'' @ ''.'')),
              (''details'',
                 JArr [JObj [(''@type'', JStr ''proxy.debug''),
                             (''accumulated_text_chars'',
                                JNum (showInt (int (length (accumulatedText s1)))))]])])])
      @ [CHR 0x0A, CHR 0x0A]"
  shows "(statusCode \<in> {400, 401, 403, 404, 429} \<longrightarrow>
           (\<exists>s2. sessionLoop cfg w body s = (NonRetryableError statusCode, s2)
              \<and> trace s2 = trace s1 @ [Interrupted reason, request,
                                        if writeFails w (writeCalls (trace s1))
                                        then WriteError frame else Wrote frame]))
       \<and> (statusCode \<notin> {400, 401, 403, 404, 429} \<longrightarrow>
           (\<exists>s2. streamAttempt cfg w body s = Again s2))
       \<and> (statusCode \<notin> {400, 401, 403, 404, 429} \<and> statusCode \<noteq> 200 \<longrightarrow>
           (\<exists>s2. streamAttempt cfg w body s = Again s2
              \<and> trace s2 = trace s1 @ [Interrupted reason, request, Slept (RetryDelayMs cfg)]
              \<and> consecutiveRetryCount s2 = consecutiveRetryCount s + 1
              \<and> currentReader s2 = currentReader s1))
       \<and> (statusCode \<notin> {400, 401, 403, 404, 429} \<and> statusCode \<noteq> 200
            \<and> SSELineIterator (currentReader s1) = []
            \<and> MaxConsecutiveRetries cfg \<le> consecutiveRetryCount s + 1 \<longrightarrow>
           (\<exists>s3. sessionLoop cfg w body s = (RetryLimitExceeded, s3)
              \<and> trace s3 = trace s1 @ [Interrupted reason, request, Slept (RetryDelayMs cfg),
                                        Interrupted ''DROP'',
                                        if writeFails w (writeCalls (trace s1))
                                        then WriteError exhausted else Wrote exhausted]))"
proof -
  have c: "consecutiveRetryCount s1 = consecutiveRetryCount s"
    using stream by (rule readStream_count)
  have sa: "streamAttempt cfg w body s = retryAfter cfg w body reason s1"
    using stream interrupted by (rule streamAttempt_interrupted)
  have fatal: "statusCode \<in> {400, 401, 403, 404, 429} \<longleftrightarrow> nonRetryableStatuses statusCode"
    by (auto simp: nonRetryableStatuses_def)
  show ?thesis
  proof (cases "nonRetryableStatuses statusCode")
    case True
    then have "retryAfter cfg w body reason s1 =
        Return (NonRetryableError statusCode)
          (snd (writerWrite w frame
             (emit request
               ((if SwallowThoughtsAfterRetry cfg \<and> isOutputtingFormalText s1
                 then (emit (Interrupted reason) s1)\<lparr>swallowModeActive := True\<rparr>
                 else emit (Interrupted reason) s1)
                \<lparr>consecutiveRetryCount := consecutiveRetryCount s1 + 1\<rparr>))))"
      using budget c url response
      by (simp add: retryAfter_def Let_def emit_def errorFrame_def frame_def request_def)
    with sa have "sessionLoop cfg w body s = (NonRetryableError statusCode,
          snd (writerWrite w frame
             (emit request
               ((if SwallowThoughtsAfterRetry cfg \<and> isOutputtingFormalText s1
                 then (emit (Interrupted reason) s1)\<lparr>swallowModeActive := True\<rparr>
                 else emit (Interrupted reason) s1)
                \<lparr>consecutiveRetryCount := consecutiveRetryCount s1 + 1\<rparr>))))"
      by (simp add: sessionLoop_Return)
    then show ?thesis
      using True fatal by (auto simp: writerWrite_def emit_def request_def)
  next
    case False
    then have round: "\<exists>s2. retryAfter cfg w body reason s1 = Again s2"
      using budget c url response by (simp add: retryAfter_def Let_def emit_def)
    have failing: "(\<exists>s2. streamAttempt cfg w body s = Again s2
              \<and> trace s2 = trace s1 @ [Interrupted reason, request, Slept (RetryDelayMs cfg)]
              \<and> consecutiveRetryCount s2 = consecutiveRetryCount s + 1
              \<and> currentReader s2 = currentReader s1)
         \<and> (SSELineIterator (currentReader s1) = []
              \<and> MaxConsecutiveRetries cfg \<le> consecutiveRetryCount s + 1 \<longrightarrow>
              (\<exists>s3. sessionLoop cfg w body s = (RetryLimitExceeded, s3)
                 \<and> trace s3 = trace s1 @ [Interrupted reason, request, Slept (RetryDelayMs cfg),
                                           Interrupted ''DROP'',
                                           if writeFails w (writeCalls (trace s1))
                                           then WriteError exhausted else Wrote exhausted]))"
      if other: "statusCode \<noteq> 200"
    proof -
      define s2 where "s2 = s1\<lparr>trace := trace s1 @ [Interrupted reason, request, Slept (RetryDelayMs cfg)],
              swallowModeActive :=
                (swallowModeActive s1 \<or> SwallowThoughtsAfterRetry cfg \<and> isOutputtingFormalText s1),
              consecutiveRetryCount := consecutiveRetryCount s1 + 1\<rparr>"
      have "failedAttempt (upstream w (requestsMade (trace s1)))"
        using response other False by simp
      from retryAfter_failed [OF _ url this, of cfg body reason] budget c sa
      have first: "streamAttempt cfg w body s = Again s2"
        by (simp add: s2_def request_def)
      have fields: "trace s2 = trace s1 @ [Interrupted reason, request, Slept (RetryDelayMs cfg)]"
        "consecutiveRetryCount s2 = consecutiveRetryCount s + 1"
        "currentReader s2 = currentReader s1" "accumulatedText s2 = accumulatedText s1"
        "writeCalls (trace s2) = writeCalls (trace s1)"
        using c by (simp_all add: s2_def request_def writeCalls_def del: Marshal.simps)
      have "\<exists>s3. sessionLoop cfg w body s = (RetryLimitExceeded, s3)
                      \<and> trace s3 = trace s1 @ [Interrupted reason, request, Slept (RetryDelayMs cfg),
                                                Interrupted ''DROP'',
                                                if writeFails w (writeCalls (trace s1))
                                                then WriteError exhausted else Wrote exhausted]"
        if "SSELineIterator (currentReader s1) = []"
          "MaxConsecutiveRetries cfg \<le> consecutiveRetryCount s + 1"
      proof -
        have stale: "SSELineIterator (currentReader s2) = []"
          and reached: "MaxConsecutiveRetries cfg \<le> consecutiveRetryCount s2"
          using that fields(2,3) by simp_all
        from failed_then_exhausted [OF first stale reached]
        have "\<exists>s3. sessionLoop cfg w body s = (RetryLimitExceeded, s3)
                      \<and> trace s3 = trace s2 @ [Interrupted ''DROP'',
                                                if writeFails w (writeCalls (trace s1))
                                                then WriteError exhausted else Wrote exhausted]"
          unfolding errorFrame_bytes fields(4,5) exhausted_def .
        then show ?thesis unfolding fields(1) by simp
      qed
      with first fields show ?thesis by blast
    qed
    from round sa False fatal failing show ?thesis by simp
  qed
qed

subsection \<open>The properties at concrete streams\<close>

lemma blank_line: "TrimSpace [] = []"
  by code_simp

text \<open>A body of one line and the empty line that ends the record: the tokenizer delivers
  the line, and the scanner leaves nothing in the reader.\<close>

lemma one_line_stream:
  "scanLines body = ([line, []], []) \<Longrightarrow> TrimSpace line \<noteq> [] \<Longrightarrow>
   SSELineIterator body = [line]"
  by (simp add: SSELineIterator_def blank_line)




lemma unreachableUpstream_accepts [simp]:
  "\<not> writeFails unreachableUpstream k" "urlParses unreachableUpstream"
  "upstream unreachableUpstream k = TransportError"
  "abandoned unreachableUpstream k = []"
  by (simp_all add: unreachableUpstream_def replying_def)

lemma continuationFromNothing_bytes:
  \<open>continuationFromNothing = ''{"contents":[{"parts":[{"text":"Hi"}],"role":"user"},{"parts":[{"text":""}],"role":"model"},{"parts":[{"text":"Continue exactly where you left off without any preamble or repetition."}],"role":"user"},{"parts":[{"text":"Hello"}],"role":"model"}],"generationConfig":{}}''\<close>
  by code_simp



lemma partALine_facts:
  "scanLines (partALine @ nl @ nl) = ([partALine, []], [])"
  "TrimSpace partALine \<noteq> []"
  "ExtractFinishReason partALine = []"
  "classify partALine = \<lparr>Text = ''Part A.'', IsThought = False\<rparr>"
  "\<not> IsBlockedLine partALine"
  "RemoveDoneTokenFromLine partALine False = partALine"
  by (simp add: scanLines_def partALine_def nl_def dropCR_def) code_simp+

text \<open>The stream that carries \<open>Part A.\<close> and is then closed: the line is forwarded, and
  the loop comes to the end of the channel.\<close>

lemma partA_stream:
  "readStream (replying f) (initialSession (partALine @ nl @ nl))
   = (NextLine, afterPartA)"
proof -
  have "processLine (replying f) (initialSession (partALine @ nl @ nl)) partALine
        = (NextLine,
           \<lparr>accumulatedText = ''Part A.'', consecutiveRetryCount = 0,
            isOutputtingFormalText = True, swallowModeActive = False,
            currentReader = partALine @ nl @ nl, trace = [Wrote (partALine @ nl @ nl)]\<rparr>)"
    using partALine_facts
    by (simp add: processLine_def classify_def [symmetric] retryDecision_def forwardLine_def
          writerWrite_def emit_def writeCalls_def replying_def initialSession_def nl_def)
  then show ?thesis
    using one_line_stream [OF partALine_facts(1,2)] partALine_facts(1)
    by (simp add: readStream_def initialSession_def afterPartA_def)
qed

lemma exhaustedFrame_bytes:
  "''event: error'' @ [CHR 0x0A] @ ''data: '' @
   Marshal (JObj [(''error'',
        JObj [(''code'', JNum ''504''),
              (''status'', JStr ''DEADLINE_EXCEEDED''),
              (''message'',
                 JStr (''Retry limit ('' @ showInt (MaxConsecutiveRetries (config 0))
                       @ '') exceeded after stream interruption. Last reason: ''
                       @ ''DROP'' @ ''.'')),
              (''details'',
                 JArr [JObj [(''@type'', JStr ''proxy.debug''),
                             (''accumulated_text_chars'',
                                JNum (showInt (int (length (accumulatedText afterPartA)))))]])])])
   @ [CHR 0x0A, CHR 0x0A] = exhaustedFrame"
  by code_simp

theorem budget_exhaustion_error_frame_witness:
  "readStream (replying (\<lambda>k. TransportError)) (initialSession (partALine @ nl @ nl))
   = (NextLine, afterPartA)
   \<and> interruptionOf NextLine = Some ''DROP''
   \<and> MaxConsecutiveRetries (config 0)
       \<le> consecutiveRetryCount (initialSession (partALine @ nl @ nl))
   \<and> (\<exists>s2. sessionLoop (config 0) (replying (\<lambda>k. TransportError)) chatBody
               (initialSession (partALine @ nl @ nl)) = (RetryLimitExceeded, s2)
          \<and> trace s2 = [Wrote (partALine @ nl @ nl), Interrupted ''DROP'', Wrote exhaustedFrame])"
proof -
  have budget: "MaxConsecutiveRetries (config 0)
                \<le> consecutiveRetryCount (initialSession (partALine @ nl @ nl))"
    by (simp add: config_def initialSession_def)
  have w: "\<not> writeFails (replying (\<lambda>k. TransportError)) k" for k
    by (simp add: replying_def)
  show ?thesis
    using partA_stream [of "\<lambda>k. TransportError"] budget w
      budget_exhaustion_error_frame [OF partA_stream [of "\<lambda>k. TransportError"] _ budget,
        of "''DROP''" chatBody]
    unfolding exhaustedFrame_bytes
    by (auto simp: afterPartA_def)
qed

lemma exhaustedFrameOfOne_bytes:
  "errorFrame (Marshal (errorPayload (config 1) ''DROP'' (accumulatedText afterPartA)))
   = exhaustedFrameOfOne"
  by code_simp

lemma continuationAfterPartA_request:
  "Marshal (JObj (BuildRetryRequestBody chatBody (accumulatedText afterPartA)))
   = continuationAfterPartA"
  by (simp add: continuationAfterPartA_def afterPartA_def del: Marshal.simps)

lemma overloadedUpstream_replies [simp]:
  "\<not> writeFails overloadedUpstream k" "urlParses overloadedUpstream"
  "upstream overloadedUpstream k = Response 500 ''overloaded''"
  "abandoned overloadedUpstream k = []"
  by (simp_all add: overloadedUpstream_def replying_def)

lemma partA_stream_overloaded:
  "readStream overloadedUpstream (initialSession (partALine @ nl @ nl)) = (NextLine, afterPartA)"
  unfolding overloadedUpstream_def by (rule partA_stream)

lemma drop_interruption: "interruptionOf NextLine = Some ''DROP''"
  by simp

theorem fatal_status_during_retry_witness:
  "readStream (replying (\<lambda>k. Response 401 badKeyBody)) (initialSession (partALine @ nl @ nl))
   = (NextLine, afterPartA)
   \<and> interruptionOf NextLine = Some ''DROP''
   \<and> consecutiveRetryCount (initialSession (partALine @ nl @ nl))
       < MaxConsecutiveRetries (config 2)
   \<and> urlParses (replying (\<lambda>k. Response 401 badKeyBody))
   \<and> upstream (replying (\<lambda>k. Response 401 badKeyBody))
        (requestsMade (trace afterPartA)) = Response 401 badKeyBody
   \<and> (401::int) \<in> {400, 401, 403, 404, 429}
   \<and> (\<exists>s2. sessionLoop (config 2) (replying (\<lambda>k. Response 401 badKeyBody)) chatBody
               (initialSession (partALine @ nl @ nl)) = (NonRetryableError 401, s2)
          \<and> trace s2 = [Wrote (partALine @ nl @ nl), Interrupted ''DROP'',
                         Requested continuationAfterPartA, Wrote badKeyFrame])
   \<and> readStream overloadedUpstream (initialSession (partALine @ nl @ nl)) = (NextLine, afterPartA)
   \<and> consecutiveRetryCount (initialSession (partALine @ nl @ nl))
       < MaxConsecutiveRetries (config 1)
   \<and> urlParses overloadedUpstream
   \<and> upstream overloadedUpstream (requestsMade (trace afterPartA)) = Response 500 ''overloaded''
   \<and> (500::int) \<notin> {400, 401, 403, 404, 429} \<and> (500::int) \<noteq> 200
   \<and> SSELineIterator (currentReader afterPartA) = []
   \<and> MaxConsecutiveRetries (config 1)
       \<le> consecutiveRetryCount (initialSession (partALine @ nl @ nl)) + 1
   \<and> (\<exists>s2. streamAttempt (config 1) overloadedUpstream chatBody
               (initialSession (partALine @ nl @ nl)) = Again s2
          \<and> trace s2 = [Wrote (partALine @ nl @ nl), Interrupted ''DROP'',
                         Requested continuationAfterPartA, Slept 750])
   \<and> (\<exists>s3. sessionLoop (config 1) overloadedUpstream chatBody
               (initialSession (partALine @ nl @ nl)) = (RetryLimitExceeded, s3)
          \<and> trace s3 = [Wrote (partALine @ nl @ nl), Interrupted ''DROP'',
                         Requested continuationAfterPartA, Slept 750, Interrupted ''DROP'',
                         Wrote exhaustedFrameOfOne])"
proof -
  let ?w = "replying (\<lambda>k. Response 401 badKeyBody)"
  let ?s = "initialSession (partALine @ nl @ nl)"
  have budget: "consecutiveRetryCount ?s < MaxConsecutiveRetries (config 2)"
    and budget1: "consecutiveRetryCount ?s < MaxConsecutiveRetries (config 1)"
    and reached: "MaxConsecutiveRetries (config 1) \<le> consecutiveRetryCount ?s + 1"
    by (simp_all add: config_def initialSession_def)
  have url: "urlParses ?w" by (simp add: replying_def)
  have resp: "upstream ?w (requestsMade (trace afterPartA)) = Response 401 badKeyBody"
    by (simp add: replying_def)
  have w: "\<not> writeFails ?w k" for k
    by (simp add: replying_def)
  have resp500: "upstream overloadedUpstream (requestsMade (trace afterPartA))
                 = Response 500 ''overloaded''"
    by simp
  have stale: "SSELineIterator (currentReader afterPartA) = []"
    by (simp add: afterPartA_def)
  have fatal: "\<exists>s2. sessionLoop (config 2) ?w chatBody ?s = (NonRetryableError 401, s2)
          \<and> trace s2 = [Wrote (partALine @ nl @ nl), Interrupted ''DROP'',
                         Requested continuationAfterPartA, Wrote badKeyFrame]"
    using w fatal_status_during_retry [OF partA_stream [of "\<lambda>k. Response 401 badKeyBody"]
        drop_interruption budget url resp, where body = chatBody, THEN conjunct1,
        unfolded continuationAfterPartA_request]
    by (simp add: badKeyFrame_def nl_def afterPartA_def)
  note other = fatal_status_during_retry [OF partA_stream_overloaded drop_interruption budget1
      overloadedUpstream_replies(2) resp500, where body = chatBody,
      unfolded continuationAfterPartA_request exhaustedFrameOfOne_bytes [unfolded errorFrame_bytes]]
  have round: "\<exists>s2. streamAttempt (config 1) overloadedUpstream chatBody ?s = Again s2
          \<and> trace s2 = [Wrote (partALine @ nl @ nl), Interrupted ''DROP'',
                         Requested continuationAfterPartA, Slept 750]"
    using other [THEN conjunct2, THEN conjunct2, THEN conjunct1]
    by (auto simp: afterPartA_def config_def)
  have ends: "\<exists>s3. sessionLoop (config 1) overloadedUpstream chatBody ?s = (RetryLimitExceeded, s3)
          \<and> trace s3 = [Wrote (partALine @ nl @ nl), Interrupted ''DROP'',
                         Requested continuationAfterPartA, Slept 750, Interrupted ''DROP'',
                         Wrote exhaustedFrameOfOne]"
    using other [THEN conjunct2, THEN conjunct2, THEN conjunct2] stale reached
    by (simp add: afterPartA_def config_def)
  from partA_stream [of "\<lambda>k. Response 401 badKeyBody"] budget url resp fatal
    partA_stream_overloaded budget1 resp500 stale reached round ends
  show ?thesis by simp
qed

text \<open>
  C7, as it is stated, fails in its last clause: with a maximum of 1, a stream that
  drops after \<open>Part A.\<close> and an upstream that answers the continuation request with
  the status 500, which is neither 200 nor one of the five fatal ones, the session ends.
  The engine sleeps, finds nothing more in the reader it had, reports \<open>DROP\<close>, writes
  the frame of the exhausted budget and returns \<open>retry limit exceeded\<close>; the one
  request that got the status 500 is the last.
\<close>

theorem retryable_status_ends_the_session:
  "upstream overloadedUpstream 0 = Response 500 ''overloaded''
   \<and> (500::int) \<notin> {400, 401, 403, 404, 429} \<and> (500::int) \<noteq> 200
   \<and> ProcessStreamAndRetryInternally (config 1) overloadedUpstream (partALine @ nl @ nl) chatBody
       = (RetryLimitExceeded, exhaustedAfterOne)
   \<and> filter isRequest (trace exhaustedAfterOne) = [Requested continuationAfterPartA]"
proof -
  let ?s = "initialSession (partALine @ nl @ nl)"
  have first: "streamAttempt (config 1) overloadedUpstream chatBody ?s = Again afterFailedRetry"
    using streamAttempt_interrupted [OF partA_stream_overloaded drop_interruption,
        of "config 1" chatBody]
    by (simp add: retryAfter_def afterPartA_def afterFailedRetry_def config_def emit_def
          requestsMade_def continuationAfterPartA_def nonRetryableStatuses_def
          del: Marshal.simps)
  have "readStream overloadedUpstream afterFailedRetry = (NextLine, afterFailedRetry)"
    by (simp add: readStream_def afterFailedRetry_def)
  from streamAttempt_interrupted [OF this drop_interruption, of "config 1" chatBody]
  have "streamAttempt (config 1) overloadedUpstream chatBody afterFailedRetry
        = retryAfter (config 1) overloadedUpstream chatBody ''DROP'' afterFailedRetry"
    by simp
  also have "\<dots> = Return RetryLimitExceeded
      (snd (writerWrite overloadedUpstream
              (errorFrame (Marshal (errorPayload (config 1) ''DROP'' (accumulatedText afterPartA))))
              (emit (Interrupted ''DROP'') afterFailedRetry)))"
    by (simp add: retryAfter_def afterFailedRetry_def afterPartA_def emit_def Let_def config_def)
  also have "\<dots> = Return RetryLimitExceeded exhaustedAfterOne"
    unfolding exhaustedFrameOfOne_bytes
    by (simp add: writerWrite_def emit_def afterFailedRetry_def exhaustedAfterOne_def)
  finally have "sessionLoop (config 1) overloadedUpstream chatBody afterFailedRetry
        = (RetryLimitExceeded, exhaustedAfterOne)"
    by (rule sessionLoop_Return)
  then have "sessionLoop (config 1) overloadedUpstream chatBody ?s
        = (RetryLimitExceeded, exhaustedAfterOne)"
    using sessionLoop_Again [OF first] by simp
  then show ?thesis
    by (simp add: ProcessStreamAndRetryInternally_def exhaustedAfterOne_def)
qed


subsection \<open>The retry counter\<close>

lemma stateAtPass_Suc:
  "stateAtPass (Suc n) cfg w body s = Some s2 \<longleftrightarrow>
   (\<exists>s1. stateAtPass n cfg w body s = Some s1 \<and> streamAttempt cfg w body s1 = Again s2)"
proof (induction n arbitrary: s)
  case 0
  then show ?case by (auto split: step.splits)
next
  case (Suc n)
  show ?case
  proof (cases "streamAttempt cfg w body s")
    case (Again s1)
    then show ?thesis using Suc.IH [of s1] by simp
  next
    case (Return r s1)
    then show ?thesis by simp
  qed
qed

lemma retryAfter_count:
  "consecutiveRetryCount s \<le> consecutiveRetryCount (stateOf (retryAfter cfg w body reason s))
   \<and> consecutiveRetryCount (stateOf (retryAfter cfg w body reason s))
       \<le> consecutiveRetryCount s + 1
   \<and> (consecutiveRetryCount s \<le> max 0 (MaxConsecutiveRetries cfg)
        \<longrightarrow> consecutiveRetryCount (stateOf (retryAfter cfg w body reason s))
             \<le> max 0 (MaxConsecutiveRetries cfg))"
  by (auto simp: retryAfter_def Let_def emit_def writerWrite_def split: reply.splits)

lemma streamAttempt_count:
  "consecutiveRetryCount s \<le> consecutiveRetryCount (stateOf (streamAttempt cfg w body s))
   \<and> consecutiveRetryCount (stateOf (streamAttempt cfg w body s)) \<le> consecutiveRetryCount s + 1
   \<and> (consecutiveRetryCount s \<le> max 0 (MaxConsecutiveRetries cfg)
        \<longrightarrow> consecutiveRetryCount (stateOf (streamAttempt cfg w body s))
             \<le> max 0 (MaxConsecutiveRetries cfg))"
proof -
  obtain v s1 where r: "readStream w s = (v, s1)"
    by (cases "readStream w s")
  have c: "consecutiveRetryCount s1 = consecutiveRetryCount s"
    using r by (rule readStream_count)
  show ?thesis
  proof (cases "interruptionOf v")
    case None
    then show ?thesis using r c by (cases v) (auto simp: streamAttempt_def)
  next
    case (Some reason)
    from streamAttempt_interrupted [OF r Some]
    show ?thesis using retryAfter_count [of s1 cfg w body reason] c by simp
  qed
qed

lemma stateAtPass_count:
  "stateAtPass n cfg w body s = Some s1 \<Longrightarrow>
   consecutiveRetryCount s1 = consecutiveRetryCount s + int n"
proof (induction n arbitrary: s1)
  case 0
  then show ?case by simp
next
  case (Suc n)
  then obtain s0 where a: "stateAtPass n cfg w body s = Some s0"
    and b: "streamAttempt cfg w body s0 = Again s1"
    by (auto simp: stateAtPass_Suc simp del: stateAtPass.simps)
  from Suc.IH [OF a] streamAttempt_Again [OF b] show ?case by simp
qed

text \<open>
  C4, as the code has it. With a maximum that is not negative, at the head of every
  iteration of the outer loop that a session reaches: the retry counter started at 0,
  is the number of iterations made so far, and is at most the maximum; no line of the
  stream changes it, and the iteration leaves it as it is or one higher, still at most
  the maximum; and when the stream ends with an interruption while the counter has
  reached the maximum, the session returns \<open>retry limit exceeded\<close> with the counter
  as it was.
\<close>

theorem retry_counter_bounded:
  assumes limit: "0 \<le> MaxConsecutiveRetries cfg"
    and reached: "stateAtPass n cfg w body (initialSession initialReader) = Some s"
  shows "consecutiveRetryCount (initialSession initialReader) = 0
       \<and> consecutiveRetryCount s = int n
       \<and> consecutiveRetryCount s \<le> MaxConsecutiveRetries cfg
       \<and> consecutiveRetryCount (snd (readStream w s)) = consecutiveRetryCount s
       \<and> consecutiveRetryCount s \<le> consecutiveRetryCount (stateOf (streamAttempt cfg w body s))
       \<and> consecutiveRetryCount (stateOf (streamAttempt cfg w body s)) \<le> MaxConsecutiveRetries cfg
       \<and> (\<forall>reason. interruptionOf (fst (readStream w s)) = Some reason
              \<and> MaxConsecutiveRetries cfg \<le> consecutiveRetryCount s
            \<longrightarrow> (\<exists>s2. streamAttempt cfg w body s = Return RetryLimitExceeded s2
                      \<and> consecutiveRetryCount s2 = consecutiveRetryCount s))"
proof -
  have init: "consecutiveRetryCount (initialSession initialReader) = 0"
    by (simp add: initialSession_def)
  have n: "consecutiveRetryCount s = int n"
    using stateAtPass_count [OF reached] init by simp
  have le: "consecutiveRetryCount s \<le> MaxConsecutiveRetries cfg"
  proof (cases n)
    case 0
    with n limit show ?thesis by simp
  next
    case (Suc m)
    with reached obtain s0 where "streamAttempt cfg w body s0 = Again s"
      by (auto simp: stateAtPass_Suc simp del: stateAtPass.simps)
    from streamAttempt_Again [OF this] show ?thesis by simp
  qed
  obtain v s1 where r: "readStream w s = (v, s1)"
    by (cases "readStream w s")
  have c: "consecutiveRetryCount s1 = consecutiveRetryCount s"
    using r by (rule readStream_count)
  have fails: "\<exists>s2. streamAttempt cfg w body s = Return RetryLimitExceeded s2
                      \<and> consecutiveRetryCount s2 = consecutiveRetryCount s"
    if "interruptionOf v = Some reason" "MaxConsecutiveRetries cfg \<le> consecutiveRetryCount s"
    for reason
    using streamAttempt_interrupted [OF r that(1)] that(2) c
    by (simp add: retryAfter_def Let_def emit_def)
  from streamAttempt_count [of s cfg w body] le limit
  have "consecutiveRetryCount s \<le> consecutiveRetryCount (stateOf (streamAttempt cfg w body s))"
    "consecutiveRetryCount (stateOf (streamAttempt cfg w body s)) \<le> MaxConsecutiveRetries cfg"
    by auto
  with init n le r c fails show ?thesis by auto
qed

lemma partA_then_transport_error:
  "0 < n \<Longrightarrow>
   streamAttempt (config n) unreachableUpstream chatBody (initialSession (partALine @ nl @ nl))
   = Again afterFailedRetry"
  using streamAttempt_interrupted [OF partA_stream [of "\<lambda>k. TransportError"], of "''DROP''"
          "config n" chatBody]
  by (simp add: unreachableUpstream_def retryAfter_def afterPartA_def afterFailedRetry_def
        config_def emit_def replying_def requestsMade_def continuationAfterPartA_def)

lemma first_retry_state:
  "stateAtPass 1 (config 2) unreachableUpstream chatBody (initialSession (partALine @ nl @ nl))
   = Some afterFailedRetry"
  by (simp add: partA_then_transport_error)

theorem retry_counter_bounded_witness:
  "0 \<le> MaxConsecutiveRetries (config 2)
   \<and> stateAtPass 1 (config 2) unreachableUpstream chatBody (initialSession (partALine @ nl @ nl))
       = Some afterFailedRetry
   \<and> consecutiveRetryCount afterFailedRetry = 1
   \<and> consecutiveRetryCount afterFailedRetry \<le> MaxConsecutiveRetries (config 2)"
proof -
  have limit: "0 \<le> MaxConsecutiveRetries (config 2)" by (simp add: config_def)
  from retry_counter_bounded [OF limit first_retry_state] limit first_retry_state
  show ?thesis by simp
qed

text \<open>
  C4, as it is stated, fails for a negative maximum, which \<open>getEnvInt\<close> accepts: the
  counter of the first state, 0, is above the maximum \<open>-1\<close>.
\<close>

theorem retry_counter_above_negative_limit:
  "stateAtPass 0 (config (- 1)) unreachableUpstream chatBody (initialSession [])
     = Some (initialSession [])
   \<and> \<not> consecutiveRetryCount (initialSession []) \<le> MaxConsecutiveRetries (config (- 1))"
  by (simp add: initialSession_def config_def)

subsection \<open>The swallow mode\<close>












subsection \<open>White space after the sentinel\<close>




















subsection \<open>A continuation attempt that fails\<close>

lemma requestsMade_writes:
  "list_all isWrite ws \<Longrightarrow> requestsMade (tr @ ws) = requestsMade tr"
proof -
  have "list_all isWrite ws \<Longrightarrow> filter isRequest ws = []"
  proof (induction ws)
    case Nil
    then show ?case by simp
  next
    case (Cons e ws)
    then show ?case by (cases e) auto
  qed
  then show "list_all isWrite ws \<Longrightarrow> requestsMade (tr @ ws) = requestsMade tr"
    by (simp add: requestsMade_def)
qed

lemma retryAfter_requests:
  "requestsMade (trace s) < requestsMade (trace (stateOf (retryAfter cfg w body reason s)))
   \<Longrightarrow> consecutiveRetryCount (stateOf (retryAfter cfg w body reason s))
       = consecutiveRetryCount s + 1"
  by (auto simp: retryAfter_def Let_def emit_def writerWrite_def requestsMade_def
           split: reply.splits if_splits)

text \<open>No iteration sends a continuation request unless it has reported an interruption
  and counted a retry.\<close>

lemma streamAttempt_requests:
  assumes "requestsMade (trace s) < requestsMade (trace (stateOf (streamAttempt cfg w body s)))"
  shows "consecutiveRetryCount (stateOf (streamAttempt cfg w body s))
           = consecutiveRetryCount s + 1
       \<and> (\<exists>reason. Interrupted reason
              \<in> set (drop (length (trace s)) (trace (stateOf (streamAttempt cfg w body s)))))"
proof -
  obtain v s1 where r: "readStream w s = (v, s1)"
    by (cases "readStream w s")
  from readStream_trace [OF r] obtain ws
    where t: "trace s1 = trace s @ ws" and ws: "list_all isWrite ws" by blast
  have q: "requestsMade (trace s1) = requestsMade (trace s)"
    using requestsMade_writes [OF ws] t by simp
  have c: "consecutiveRetryCount s1 = consecutiveRetryCount s"
    using r by (rule readStream_count)
  show ?thesis
  proof (cases "interruptionOf v")
    case None
    then have "stateOf (streamAttempt cfg w body s) = s1"
      using r by (cases v) (auto simp: streamAttempt_def)
    with assms q show ?thesis by simp
  next
    case (Some reason)
    let ?r = "retryAfter cfg w body reason s1"
    from streamAttempt_interrupted [OF r Some]
    have sa: "streamAttempt cfg w body s = ?r" .
    from assms sa q have "requestsMade (trace s1) < requestsMade (trace (stateOf ?r))"
      by simp
    from retryAfter_requests [OF this] c
    have count: "consecutiveRetryCount (stateOf ?r) = consecutiveRetryCount s + 1"
      by simp
    from retryAfter_raises [of cfg w body reason s1]
    have "take (Suc (length (trace s1))) (trace (stateOf ?r)) = trace s1 @ [Interrupted reason]"
      by simp
    then have "trace (stateOf ?r)
        = (trace s1 @ [Interrupted reason]) @ drop (Suc (length (trace s1))) (trace (stateOf ?r))"
      by (metis append_take_drop_id)
    then have "trace (stateOf ?r)
        = trace s @ (ws @ Interrupted reason # drop (Suc (length (trace s1))) (trace (stateOf ?r)))"
      using t by simp
    then have "drop (length (trace s)) (trace (stateOf ?r))
        = ws @ Interrupted reason # drop (Suc (length (trace s1))) (trace (stateOf ?r))"
      by (metis append_eq_conv_conj)
    then have "Interrupted reason \<in> set (drop (length (trace s)) (trace (stateOf ?r)))"
      by simp
    with count sa show ?thesis by auto
  qed
qed

text \<open>
  C1, as the code has it. A stream ends with an interruption, the budget allows a
  retry, and the continuation request meets a transport error or a status that is
  neither 200 nor one of the five fatal ones. Then the engine has counted the retry,
  sent the request and slept \<open>RetryDelayMs\<close>, and it goes round the outer loop with
  the reader it had, on which the next iteration starts a new scanner. That iteration
  sends no request unless it has reported an interruption of its own and counted one
  retry more. When its scanner delivers no line, the interruption is \<open>DROP\<close>; then,
  with the counter at the maximum, the frame of the exhausted budget is written and the
  session returns \<open>retry limit exceeded\<close> without a further request; otherwise the
  engine counts one retry more and only then sends the continuation request again.
\<close>

theorem failed_continuation_spends_a_retry:
  fixes body :: "(string \<times> json) list"
  assumes stream: "readStream w s = (v, s1)"
    and interrupted: "interruptionOf v = Some reason"
    and budget: "consecutiveRetryCount s < MaxConsecutiveRetries cfg"
    and url: "urlParses w"
    and failed: "failedAttempt (upstream w (requestsMade (trace s1)))"
  defines "request \<equiv> Requested (Marshal (JObj (BuildRetryRequestBody body (accumulatedText s1))))"
    and "exhausted \<equiv> ''event: error'' @ [CHR 0x0A] @ ''data: '' @
      Marshal (JObj [(''error'',
        JObj [(''code'', JNum ''504''),
              (''status'', JStr ''DEADLINE_EXCEEDED''),
              (''message'',
                 JStr (''Retry limit ('' @ showInt (MaxConsecutiveRetries cfg)
                       @ '') exceeded after stream interruption. Last reason: ''
                       @ ''DROP'' @ ''.'')),
              (''details'',
                 JArr [JObj [(''@type'', JStr ''proxy.debug''),
                             (''accumulated_text_chars'',
                                JNum (showInt (int (length (accumulatedText s1)))))]])])])
      @ [CHR 0x0A, CHR 0x0A]"
    and "s2 \<equiv> stateOf (streamAttempt cfg w body s)"
  shows "streamAttempt cfg w body s = Again s2
       \<and> trace s2 = trace s1 @ [Interrupted reason, request, Slept (RetryDelayMs cfg)]
       \<and> consecutiveRetryCount s2 = consecutiveRetryCount s + 1
       \<and> currentReader s2 = currentReader s1
       \<and> (requestsMade (trace s2)
              < requestsMade (trace (stateOf (streamAttempt cfg w body s2))) \<longrightarrow>
            consecutiveRetryCount (stateOf (streamAttempt cfg w body s2))
              = consecutiveRetryCount s + 2
            \<and> (\<exists>reason'. Interrupted reason'
                   \<in> set (drop (length (trace s2))
                             (trace (stateOf (streamAttempt cfg w body s2))))))
       \<and> (SSELineIterator (currentReader s1) = [] \<longrightarrow>
            (if MaxConsecutiveRetries cfg \<le> consecutiveRetryCount s + 1
             then \<exists>s3. sessionLoop cfg w body s = (RetryLimitExceeded, s3)
                    \<and> trace s3 = trace s2 @ [Interrupted ''DROP'',
                                              if writeFails w (writeCalls (trace s1))
                                              then WriteError exhausted else Wrote exhausted]
             else consecutiveRetryCount (stateOf (streamAttempt cfg w body s2))
                    = consecutiveRetryCount s + 2
                  \<and> take (length (trace s2) + 2) (trace (stateOf (streamAttempt cfg w body s2)))
                      = trace s2 @ [Interrupted ''DROP'', request]))"
proof -
  have c: "consecutiveRetryCount s1 = consecutiveRetryCount s"
    using stream by (rule readStream_count)
  define s' where "s' = s1\<lparr>trace := trace s1 @ [Interrupted reason, request, Slept (RetryDelayMs cfg)],
              swallowModeActive :=
                (swallowModeActive s1 \<or> SwallowThoughtsAfterRetry cfg \<and> isOutputtingFormalText s1),
              consecutiveRetryCount := consecutiveRetryCount s1 + 1\<rparr>"
  have "streamAttempt cfg w body s = Again s'"
    using streamAttempt_interrupted [OF stream interrupted, of cfg body]
      retryAfter_failed [OF _ url failed, of cfg body reason] budget c
    by (simp add: s'_def request_def)
  then have first: "streamAttempt cfg w body s = Again s2" and s2: "s2 = s'"
    by (simp_all add: s2_def)
  have fields: "trace s2 = trace s1 @ [Interrupted reason, request, Slept (RetryDelayMs cfg)]"
    "consecutiveRetryCount s2 = consecutiveRetryCount s + 1"
    "currentReader s2 = currentReader s1" "accumulatedText s2 = accumulatedText s1"
    "writeCalls (trace s2) = writeCalls (trace s1)"
    using c unfolding s2
    by (simp_all add: s'_def request_def writeCalls_def del: Marshal.simps)
  have requests: "consecutiveRetryCount (stateOf (streamAttempt cfg w body s2))
                  = consecutiveRetryCount s + 2
                \<and> (\<exists>reason'. Interrupted reason'
                       \<in> set (drop (length (trace s2))
                                 (trace (stateOf (streamAttempt cfg w body s2)))))"
    if "requestsMade (trace s2) < requestsMade (trace (stateOf (streamAttempt cfg w body s2)))"
    using streamAttempt_requests [OF that] fields(2) by simp
  have exhausted: "\<exists>s3. sessionLoop cfg w body s = (RetryLimitExceeded, s3)
                        \<and> trace s3 = trace s2 @ [Interrupted ''DROP'',
                                                  if writeFails w (writeCalls (trace s1))
                                                  then WriteError exhausted else Wrote exhausted]"
    if "SSELineIterator (currentReader s1) = []"
      "MaxConsecutiveRetries cfg \<le> consecutiveRetryCount s + 1"
  proof -
    have stale: "SSELineIterator (currentReader s2) = []"
      and reached: "MaxConsecutiveRetries cfg \<le> consecutiveRetryCount s2"
      using that fields(2,3) by simp_all
    from failed_then_exhausted [OF first stale reached]
    show ?thesis unfolding errorFrame_bytes fields(4,5) exhausted_def .
  qed
  have again: "consecutiveRetryCount (stateOf (streamAttempt cfg w body s2))
                        = consecutiveRetryCount s + 2
                      \<and> take (length (trace s2) + 2) (trace (stateOf (streamAttempt cfg w body s2)))
                          = trace s2 @ [Interrupted ''DROP'', request]"
    if stale: "SSELineIterator (currentReader s1) = []"
      and left: "\<not> MaxConsecutiveRetries cfg \<le> consecutiveRetryCount s + 1"
  proof -
    let ?s = "s2\<lparr>currentReader := snd (scanLines (currentReader s2))\<rparr>"
    have "streamAttempt cfg w body s2 = retryAfter cfg w body ''DROP'' ?s"
      using stale fields(3) by (simp add: stale_pass)
    with retryAfter_request [of ?s cfg w body "''DROP''"] left url fields(2,4)
    show ?thesis by (simp add: request_def)
  qed
  from first fields(1-3) requests exhausted again show ?thesis
    by (intro conjI impI) (simp_all del: Marshal.simps)
qed

lemma partA_stream_unreachable:
  "readStream unreachableUpstream (initialSession (partALine @ nl @ nl)) = (NextLine, afterPartA)"
  unfolding unreachableUpstream_def by (rule partA_stream)

lemma exhaustedFrameOfTwo_bytes:
  "errorFrame (Marshal (errorPayload (config 2) ''DROP'' ''Part A.'')) = exhaustedFrameOfTwo"
  by code_simp

lemma afterFailedRetry_stale:
  "readStream unreachableUpstream afterFailedRetry = (NextLine, afterFailedRetry)"
  by (simp add: readStream_def afterFailedRetry_def)

lemma second_transport_error:
  "streamAttempt (config 2) unreachableUpstream chatBody afterFailedRetry
   = Again afterSecondFailedRetry"
  using streamAttempt_interrupted [OF afterFailedRetry_stale, of "''DROP''" "config 2" chatBody]
  by (simp add: retryAfter_def afterFailedRetry_def afterSecondFailedRetry_def config_def
        emit_def continuationAfterPartA_def del: Marshal.simps)

lemma third_drop_exhausts:
  "streamAttempt (config 2) unreachableUpstream chatBody afterSecondFailedRetry
   = Return RetryLimitExceeded exhaustedAfterTwo"
proof -
  have "readStream unreachableUpstream afterSecondFailedRetry
        = (NextLine, afterSecondFailedRetry)"
    by (simp add: readStream_def afterSecondFailedRetry_def)
  from streamAttempt_interrupted [OF this, of "''DROP''" "config 2" chatBody]
  have "streamAttempt (config 2) unreachableUpstream chatBody afterSecondFailedRetry
        = retryAfter (config 2) unreachableUpstream chatBody ''DROP'' afterSecondFailedRetry"
    by simp
  also have "\<dots> = Return RetryLimitExceeded
      (snd (writerWrite unreachableUpstream
              (errorFrame (Marshal (errorPayload (config 2) ''DROP'' ''Part A.'')))
              (emit (Interrupted ''DROP'') afterSecondFailedRetry)))"
    by (simp add: retryAfter_def afterSecondFailedRetry_def emit_def Let_def config_def)
  also have "\<dots> = Return RetryLimitExceeded exhaustedAfterTwo"
    unfolding exhaustedFrameOfTwo_bytes
    by (simp add: writerWrite_def emit_def afterSecondFailedRetry_def exhaustedAfterTwo_def)
  finally show ?thesis .
qed

theorem failed_continuation_spends_a_retry_witness:
  "readStream unreachableUpstream (initialSession (partALine @ nl @ nl)) = (NextLine, afterPartA)
   \<and> interruptionOf NextLine = Some ''DROP''
   \<and> consecutiveRetryCount (initialSession (partALine @ nl @ nl))
       < MaxConsecutiveRetries (config 1)
   \<and> consecutiveRetryCount (initialSession (partALine @ nl @ nl))
       < MaxConsecutiveRetries (config 2)
   \<and> urlParses unreachableUpstream
   \<and> failedAttempt (upstream unreachableUpstream (requestsMade (trace afterPartA)))
   \<and> SSELineIterator (currentReader afterPartA) = []
   \<and> streamAttempt (config 2) unreachableUpstream chatBody (initialSession (partALine @ nl @ nl))
       = Again afterFailedRetry
   \<and> requestsMade (trace afterFailedRetry)
       < requestsMade (trace (stateOf (streamAttempt (config 2) unreachableUpstream chatBody
                                         afterFailedRetry)))
   \<and> consecutiveRetryCount
        (stateOf (streamAttempt (config 2) unreachableUpstream chatBody afterFailedRetry)) = 2
   \<and> take 6 (trace (stateOf (streamAttempt (config 2) unreachableUpstream chatBody
                                afterFailedRetry)))
       = [Wrote (partALine @ nl @ nl), Interrupted ''DROP'', Requested continuationAfterPartA,
          Slept 750, Interrupted ''DROP'', Requested continuationAfterPartA]
   \<and> (\<exists>s3. sessionLoop (config 1) unreachableUpstream chatBody
               (initialSession (partALine @ nl @ nl)) = (RetryLimitExceeded, s3)
          \<and> trace s3
              = [Wrote (partALine @ nl @ nl), Interrupted ''DROP'', Requested continuationAfterPartA,
                 Slept 750, Interrupted ''DROP'', Wrote exhaustedFrameOfOne])"
proof -
  let ?s = "initialSession (partALine @ nl @ nl)"
  have budget1: "consecutiveRetryCount ?s < MaxConsecutiveRetries (config 1)"
    and budget2: "consecutiveRetryCount ?s < MaxConsecutiveRetries (config 2)"
    by (simp_all add: config_def initialSession_def)
  have failed: "failedAttempt (upstream unreachableUpstream (requestsMade (trace afterPartA)))"
    by simp
  have stale: "SSELineIterator (currentReader afterPartA) = []"
    by (simp add: afterPartA_def)
  have first: "streamAttempt (config n) unreachableUpstream chatBody ?s = Again afterFailedRetry"
    if "0 < n" for n
    using that by (rule partA_then_transport_error)
  have made: "requestsMade (trace afterFailedRetry)
       < requestsMade (trace (stateOf (streamAttempt (config 2) unreachableUpstream chatBody
                                         afterFailedRetry)))"
    unfolding second_transport_error
    by (simp add: afterFailedRetry_def afterSecondFailedRetry_def requestsMade_def)
  have len: "length (trace afterFailedRetry) = 4"
    "trace afterFailedRetry @ [Interrupted ''DROP'', Requested continuationAfterPartA]
     = [Wrote (partALine @ nl @ nl), Interrupted ''DROP'', Requested continuationAfterPartA,
        Slept 750, Interrupted ''DROP'', Requested continuationAfterPartA]"
    "trace afterFailedRetry @ [Interrupted ''DROP'', Wrote exhaustedFrameOfOne]
     = [Wrote (partALine @ nl @ nl), Interrupted ''DROP'', Requested continuationAfterPartA,
        Slept 750, Interrupted ''DROP'', Wrote exhaustedFrameOfOne]"
    "consecutiveRetryCount ?s = 0"
    "consecutiveRetryCount afterFailedRetry = 1"
    "\<not> writeFails unreachableUpstream (writeCalls (trace afterPartA))"
    by (simp_all add: afterFailedRetry_def initialSession_def)
  note at2 = failed_continuation_spends_a_retry [OF partA_stream_unreachable drop_interruption
      budget2 unreachableUpstream_accepts(2) failed, where body = chatBody,
      unfolded first [of 2, simplified] stateOf.simps continuationAfterPartA_request]
  note at1 = failed_continuation_spends_a_retry [OF partA_stream_unreachable drop_interruption
      budget1 unreachableUpstream_accepts(2) failed, where body = chatBody,
      unfolded first [of 1, simplified] stateOf.simps continuationAfterPartA_request
        exhaustedFrameOfOne_bytes [unfolded errorFrame_bytes]]
  have two: "consecutiveRetryCount
          (stateOf (streamAttempt (config 2) unreachableUpstream chatBody afterFailedRetry)) = 2
        \<and> take 6 (trace (stateOf (streamAttempt (config 2) unreachableUpstream chatBody
                                afterFailedRetry)))
            = [Wrote (partALine @ nl @ nl), Interrupted ''DROP'', Requested continuationAfterPartA,
               Slept 750, Interrupted ''DROP'', Requested continuationAfterPartA]"
    using at2 [THEN conjunct2, THEN conjunct2, THEN conjunct2, THEN conjunct2, THEN conjunct2]
      stale
    by (simp add: len config_def)
  have one: "\<exists>s3. sessionLoop (config 1) unreachableUpstream chatBody ?s = (RetryLimitExceeded, s3)
          \<and> trace s3
              = [Wrote (partALine @ nl @ nl), Interrupted ''DROP'', Requested continuationAfterPartA,
                 Slept 750, Interrupted ''DROP'', Wrote exhaustedFrameOfOne]"
    using at1 [THEN conjunct2, THEN conjunct2, THEN conjunct2, THEN conjunct2, THEN conjunct2]
      stale
    by (simp add: len config_def)
  from partA_stream_unreachable budget1 budget2 failed stale first [of 2] made two one
  show ?thesis by simp
qed

text \<open>
  C1, as it is stated, fails: with a maximum of 2, one stream that drops after
  \<open>Part A.\<close> and an upstream that cannot be reached, the trace shows the interruption
  \<open>DROP\<close> raised again after each sleep and before the request is sent again, the
  counter reaches 2 on the one interruption of a stream, and the session fails after
  the second transport error.
\<close>

theorem transport_failure_counts_and_raises_drop:
  "ProcessStreamAndRetryInternally (config 2) unreachableUpstream (partALine @ nl @ nl) chatBody
   = (RetryLimitExceeded, exhaustedAfterTwo)"
proof -
  have "sessionLoop (config 2) unreachableUpstream chatBody afterSecondFailedRetry
        = (RetryLimitExceeded, exhaustedAfterTwo)"
    using third_drop_exhausts by (rule sessionLoop_Return)
  then have "sessionLoop (config 2) unreachableUpstream chatBody afterFailedRetry
        = (RetryLimitExceeded, exhaustedAfterTwo)"
    using sessionLoop_Again [OF second_transport_error] by simp
  then have "sessionLoop (config 2) unreachableUpstream chatBody
               (initialSession (partALine @ nl @ nl)) = (RetryLimitExceeded, exhaustedAfterTwo)"
    using sessionLoop_Again [OF partA_then_transport_error [of 2]] by simp
  then show ?thesis by (simp add: ProcessStreamAndRetryInternally_def)
qed

subsection \<open>Drop, then continue\<close>

text \<open>The bytes of the continuation request: the accumulated text as a \<open>model\<close>
  message and the request to continue, after the last \<open>user\<close> message.\<close>

lemma continuationAfterPartA_bytes:
  \<open>continuationAfterPartA = ''{"contents":[{"parts":[{"text":"Hi"}],"role":"user"},{"parts":[{"text":"Part A."}],"role":"model"},{"parts":[{"text":"Continue exactly where you left off without any preamble or repetition."}],"role":"user"},{"parts":[{"text":"Hello"}],"role":"model"}],"generationConfig":{}}''\<close>
  by code_simp

lemma partBLine_facts:
  "scanLines (partBLine @ nl @ nl) = ([partBLine, []], [])"
  "TrimSpace partBLine \<noteq> []"
  "ExtractFinishReason partBLine = ''STOP''"
  "classify partBLine = \<lparr>Text = '' Part B.[done]'', IsThought = False\<rparr>"
  "\<not> IsBlockedLine partBLine"
  "RemoveDoneTokenFromLine partBLine True = partBForwarded"
  "TrimSpace ''Part A. Part B.[done]'' = ''Part A. Part B.[done]''"
  "HasSuffix ''Part A. Part B.[done]'' ''[done]''"
  "Text (ParseLineContent partALine) = ''Part A.''"
  "Text (ParseLineContent partBForwarded) = ''Part B.''"
  by (simp add: scanLines_def partBLine_def nl_def dropCR_def) code_simp+

lemma partBUpstream_replies [simp]:
  "\<not> writeFails partBUpstream k" "urlParses partBUpstream"
  "upstream partBUpstream k = Response 200 (partBLine @ nl @ nl)"
  "abandoned partBUpstream k = []"
  by (simp_all add: partBUpstream_def replying_def)

lemma partA_then_continuation:
  "streamAttempt (config 2) partBUpstream chatBody (initialSession (partALine @ nl @ nl))
   = Again continuingWithPartB"
proof -
  have "readStream partBUpstream (initialSession (partALine @ nl @ nl)) = (NextLine, afterPartA)"
    unfolding partBUpstream_def by (rule partA_stream)
  from streamAttempt_interrupted [OF this, of "''DROP''" "config 2" chatBody]
  show ?thesis
    using partBLine_facts(1)
    by (simp add: retryAfter_def afterPartA_def continuingWithPartB_def config_def emit_def
          continuationAfterPartA_def nonRetryableStatuses_def del: Marshal.simps)
qed

lemma partB_closes:
  "streamAttempt (config 2) partBUpstream chatBody continuingWithPartB
   = Return Completed closedAfterPartB"
proof -
  have line: "processLine partBUpstream continuingWithPartB partBLine
        = (CleanExit, closedAfterPartB\<lparr>currentReader := partBLine @ nl @ nl\<rparr>)"
    using partBLine_facts
    by (simp add: processLine_def classify_def [symmetric] retryDecision_def forwardLine_def
          writerWrite_def emit_def continuingWithPartB_def closedAfterPartB_def nl_def)
  have "SSELineIterator (currentReader continuingWithPartB) = [partBLine]"
    using one_line_stream [OF partBLine_facts(1,2)]
    by (simp add: continuingWithPartB_def)
  from readStream_first [OF this line]
  have "readStream partBUpstream continuingWithPartB = (CleanExit, closedAfterPartB)"
    by (simp add: closedAfterPartB_def)
  then show ?thesis by (simp add: streamAttempt_def)
qed

text \<open>
  C2. Drop, then continue: the upstream sends the line with the text \<open>Part A.\<close> and
  closes, the continuation request carries the accumulated text \<open>Part A.\<close>, and
  the new stream sends the line with the text \<open> Part B.[done]\<close> and \<open>STOP\<close>.
  The client receives two data frames, and the second carries the text \<open>Part B.\<close>
  without the space that the upstream sent before it: the sentinel editor writes back
  the text that it has trimmed on both sides. The texts that the client sees
  concatenate to \<open>Part A.Part B.\<close>, not to \<open>Part A. Part B.\<close>.
\<close>

theorem drop_then_continue_loses_the_space:
  "ProcessStreamAndRetryInternally (config 2) partBUpstream (partALine @ nl @ nl) chatBody
     = (Completed, closedAfterPartB)
   \<and> filter isWrite (trace closedAfterPartB)
       = [Wrote (partALine @ nl @ nl), Wrote (partBForwarded @ nl @ nl)]
   \<and> Text (ParseLineContent partALine) @ Text (ParseLineContent partBForwarded)
       = ''Part A.Part B.''
   \<and> Text (ParseLineContent partALine) @ Text (ParseLineContent partBForwarded)
       \<noteq> ''Part A. Part B.''"
proof -
  have "sessionLoop (config 2) partBUpstream chatBody continuingWithPartB
        = (Completed, closedAfterPartB)"
    using partB_closes by (rule sessionLoop_Return)
  then have "sessionLoop (config 2) partBUpstream chatBody (initialSession (partALine @ nl @ nl))
        = (Completed, closedAfterPartB)"
    using sessionLoop_Again [OF partA_then_continuation] by simp
  then show ?thesis
    using partBLine_facts(9,10)
    by (simp add: ProcessStreamAndRetryInternally_def closedAfterPartB_def)
qed


end
